theory Spec2Isabelle
  imports Main "HOL-Library.Sublist" "HOL-Library.Word"
begin

unbundle bit_operations_syntax

section \<open>Python values and the built-ins the source relies on\<close>

text \<open>
  The values that travel through the engine (row cells, resume-state values, the
  incremental bounds) are Python objects. The model keeps the three kinds the source and
  its tests use: \<open>None\<close>, integers and strings. A row (a \<open>RealDictCursor\<close> row, a
  key descriptor returned by catalog introspection) is a dictionary from column names to
  such values.
\<close>

datatype pyval = PNone | PInt int | PStr string

type_synonym row = "string \<rightharpoonup> pyval"

text \<open>
  The exceptions of the model. \<open>DatabaseError\<close>, \<open>OperationalError\<close> and
  \<open>InterfaceError\<close> are psycopg2's, with their message; \<open>OperationalError\<close> is a
  subclass of \<open>DatabaseError\<close>, \<open>InterfaceError\<close> is not. \<open>PanoplyException\<close> carries
  its message and its \<open>retryable\<close> flag. The others are the Python run-time errors
  that the source's own statements can raise.
\<close>

datatype dberr = DatabaseError string | OperationalError string | InterfaceError string

datatype exn =
    Psycopg2 dberr
  | PanoplyException string bool
  | TypeError
  | ValueError
  | KeyError
  | IndexError
  | AttributeError

fun isinstance_DatabaseError :: "exn \<Rightarrow> bool" where
  "isinstance_DatabaseError (Psycopg2 (DatabaseError _)) = True"
| "isinstance_DatabaseError (Psycopg2 (OperationalError _)) = True"
| "isinstance_DatabaseError _ = False"

fun message :: "dberr \<Rightarrow> string" where
  "message (DatabaseError s) = s"
| "message (OperationalError s) = s"
| "message (InterfaceError s) = s"

text \<open>Truthiness, as \<open>if x:\<close> tests it.\<close>

fun truthy :: "pyval \<Rightarrow> bool" where
  "truthy PNone = False"
| "truthy (PInt i) = (i \<noteq> 0)"
| "truthy (PStr s) = (s \<noteq> [])"

text \<open>\<open>str(n)\<close> for integers, in decimal.\<close>

fun str_nat :: "nat \<Rightarrow> string" where
  "str_nat n =
     (if n < 10 then [''0123456789'' ! n]
      else str_nat (n div 10) @ [''0123456789'' ! (n mod 10)])"

declare str_nat.simps [simp del]

definition str_int :: "int \<Rightarrow> string" where
  "str_int i = (if i < 0 then ''-'' @ str_nat (nat (- i)) else str_nat (nat i))"

text \<open>What \<open>'{}'.format(x)\<close> puts in place of the braces.\<close>

fun py_str :: "pyval \<Rightarrow> string" where
  "py_str PNone = ''None''"
| "py_str (PInt i) = str_int i"
| "py_str (PStr s) = s"

text \<open>\<open>d.get(k)\<close>: the value, or \<open>None\<close> when the key is absent.\<close>

definition dict_get :: "row \<Rightarrow> string \<Rightarrow> pyval" where
  "dict_get d k = (case d k of None \<Rightarrow> PNone | Some v \<Rightarrow> v)"

text \<open>
  \<open>sep.join(xs)\<close> raises \<open>TypeError\<close> when an item is not a string.
\<close>

fun str_items :: "pyval list \<Rightarrow> string list option" where
  "str_items [] = Some []"
| "str_items (PStr s # xs) = map_option ((#) s) (str_items xs)"
| "str_items (PNone # xs) = None"
| "str_items (PInt i # xs) = None"

fun join_strs :: "string \<Rightarrow> string list \<Rightarrow> string" where
  "join_strs sep [] = []"
| "join_strs sep [x] = x"
| "join_strs sep (x # y # ys) = x @ sep @ join_strs sep (y # ys)"

definition join :: "string \<Rightarrow> pyval list \<Rightarrow> exn + string" where
  "join sep xs = (case str_items xs of None \<Rightarrow> Inl TypeError | Some ss \<Rightarrow> Inr (join_strs sep ss))"

text \<open>\<open>needle in hay\<close> on strings: \<open>needle\<close> occurs as a contiguous substring.\<close>

fun str_in :: "string \<Rightarrow> string \<Rightarrow> bool" where
  "str_in needle [] = (needle = [])"
| "str_in needle (c # cs) = (prefix needle (c # cs) \<or> str_in needle cs)"

text \<open>
  \<open>s.split(sep, 1)\<close> and \<open>s.rsplit(sep, 1)\<close> for a one-character separator, unpacked
  into two names: the parts around the first (the last) separator, or nothing when the
  separator is absent (the unpacking then raises \<open>ValueError\<close>).
\<close>

fun split1 :: "char \<Rightarrow> string \<Rightarrow> (string \<times> string) option" where
  "split1 sep [] = None"
| "split1 sep (c # cs) =
     (if c = sep then Some ([], cs)
      else map_option (\<lambda>(a, b). (c # a, b)) (split1 sep cs))"

definition rsplit1 :: "char \<Rightarrow> string \<Rightarrow> (string \<times> string) option" where
  "rsplit1 sep s = map_option (\<lambda>(a, b). (rev b, rev a)) (split1 sep (rev s))"

text \<open>
  \<open>int(s)\<close> on a string: surrounding blanks are dropped, one sign is allowed, and the
  rest must be a non-empty run of decimal digits; anything else raises \<open>ValueError\<close>.
\<close>

definition digit_val :: "char \<Rightarrow> nat option" where
  "digit_val c =
     (let n = (of_char c :: nat)
      in if of_char (CHR ''0'') \<le> n \<and> n \<le> of_char (CHR ''9'') then Some (n - of_char (CHR ''0'')) else None)"

fun digits_val :: "nat \<Rightarrow> string \<Rightarrow> nat option" where
  "digits_val acc [] = Some acc"
| "digits_val acc (c # cs) =
     (case digit_val c of None \<Rightarrow> None | Some d \<Rightarrow> digits_val (10 * acc + d) cs)"

definition is_blank :: "char \<Rightarrow> bool" where
  "is_blank c = (c = CHR '' '' \<or> c = CHR 0x09 \<or> c = CHR 0x0A \<or> c = CHR 0x0B \<or> c = CHR 0x0C \<or> c = CHR 0x0D)"

definition strip :: "string \<Rightarrow> string" where
  "strip s = rev (dropWhile is_blank (rev (dropWhile is_blank s)))"

definition py_int :: "string \<Rightarrow> int option" where
  "py_int s =
     (case strip s of
        [] \<Rightarrow> None
      | c # cs \<Rightarrow>
          if c = CHR ''-'' then (if cs = [] then None else map_option (\<lambda>n. - int n) (digits_val 0 cs))
          else if c = CHR ''+'' then (if cs = [] then None else map_option int (digits_val 0 cs))
          else map_option int (digits_val 0 (c # cs)))"

text \<open>
  \<open>OrderedDict(pairs)\<close>: a later pair with a key already present replaces the value and
  keeps the key's first position.
\<close>

fun od_set :: "'k \<Rightarrow> 'v \<Rightarrow> ('k \<times> 'v) list \<Rightarrow> ('k \<times> 'v) list" where
  "od_set k v [] = [(k, v)]"
| "od_set k v ((k', v') # d) = (if k' = k then (k', v) # d else (k', v') # od_set k v d)"

definition OrderedDict :: "('k \<times> 'v) list \<Rightarrow> ('k \<times> 'v) list" where
  "OrderedDict pairs = foldl (\<lambda>d (k, v). od_set k v d) [] pairs"

section \<open>The query builder\<close>

text \<open>
  \<open>get_query(schema, table, inckey, incval, keys, max_value, state=None)\<close>, statement
  by statement. \<open>keys\<close> is the list of key descriptors (rows with an \<open>attname\<close>),
  \<open>state\<close> is the resume state (an ordered dictionary, or \<open>None\<close>), \<open>max_value\<close> is
  \<open>None\<close> when no upper bound was read. The three parts are named after the source's
  variables; \<open>offset\<close> is the empty string throughout.
\<close>

definition quoted :: "pyval \<Rightarrow> string" where
  \<open>quoted x = [CHR 0x27] @ py_str x @ [CHR 0x27]\<close>

definition get_query_orderby :: "string \<Rightarrow> row list \<Rightarrow> exn + string" where
  "get_query_orderby inckey keys =
     (if keys \<noteq> [] then
        (let ks = map (\<lambda>key. dict_get key ''attname'') keys;
             ks' = (if inckey \<noteq> [] \<and> PStr inckey \<notin> set ks then ks @ [PStr inckey] else ks)
         in case join '','' ks' of
              Inl e \<Rightarrow> Inl e
            | Inr s \<Rightarrow> Inr ('' ORDER BY '' @ s))
      else Inr [])"

definition get_query_resume :: "(pyval \<times> pyval) list option \<Rightarrow> exn + string" where
  "get_query_resume state =
     (case state of
        None \<Rightarrow> Inr []
      | Some st \<Rightarrow>
          if st = [] then Inr []
          else
            (case join '','' (map fst st) of
               Inl e \<Rightarrow> Inl e
             | Inr cols \<Rightarrow>
                 (let vals = join_strs '','' (map (\<lambda>x. quoted x) (map snd st))
                  in if length st > 1 then Inr (''('' @ cols @ '') >= ('' @ vals @ '')'')
                     else Inr (cols @ '' >= '' @ vals))))"

definition get_query_where :: "string \<Rightarrow> pyval \<Rightarrow> pyval \<Rightarrow> string \<Rightarrow> string" where
  "get_query_where inckey incval max_value where0 =
     (let where1 =
            (if (inckey \<noteq> [] \<and> truthy incval) \<and> \<not> str_in inckey where0 then
               (let w = (if where0 \<noteq> [] then where0 @ '' AND '' else where0);
                    inc_clause = inckey @ '' >= '' @ quoted incval;
                    inc_clause' =
                      (if truthy max_value
                       then ''('' @ inc_clause @ '' AND '' @ inckey @ '' <= '' @ py_str max_value @ '')''
                       else inc_clause)
                in w @ inc_clause')
             else where0)
      in if where1 \<noteq> [] then '' WHERE '' @ where1 else where1)"

definition select_from :: "string \<Rightarrow> string \<Rightarrow> string" where
  \<open>select_from schema table = ''SELECT * FROM "'' @ schema @ ''"."'' @ table @ ''"''\<close>

definition get_query ::
  "string \<Rightarrow> string \<Rightarrow> string \<Rightarrow> pyval \<Rightarrow> row list \<Rightarrow> pyval \<Rightarrow> (pyval \<times> pyval) list option \<Rightarrow> exn + string"
where
  "get_query schema table inckey incval keys max_value state =
     (case get_query_orderby inckey keys of
        Inl e \<Rightarrow> Inl e
      | Inr orderby \<Rightarrow>
          (case get_query_resume state of
             Inl e \<Rightarrow> Inl e
           | Inr where0 \<Rightarrow>
               Inr (select_from schema table @ get_query_where inckey incval max_value where0 @ orderby)))"

section \<open>The engine: state, environment and trace\<close>

text \<open>
  The configuration dictionary \<open>source\<close>. The address and the credentials are read with
  \<open>source[...]\<close>; the other keys are read with \<open>source.get(key, default)\<close> and may be
  absent.
\<close>

record table_ref =
  t_name :: string
  t_value :: string

record saved_state =
  last_index :: "nat option"
  last_value :: "(pyval \<times> pyval) list option"

record source =
  addr :: string
  user :: string
  password :: string
  destination :: "string option"
  batchSize :: "int option"
  cfg_tables :: "table_ref list option"
  cfg_state :: "saved_state option"
  cfg_inckey :: "string option"
  cfg_incval :: "pyval option"

text \<open>The attributes of a \<open>Postgres\<close> instance, as \<open>__init__\<close> declares them.\<close>

record postgres =
  source :: source
  batch_size :: int
  tables :: "table_ref list"
  index :: nat
  conn :: "nat option"
  cursor :: "nat option"
  state_id :: "string option"
  loaded :: nat
  saved_state :: saved_state
  current_keys :: "row list option"
  inckey :: string
  incval :: pyval

text \<open>
  What the engine does to the outside is recorded as a trace of events, in the order of
  the calls: the host callbacks (\<open>progress\<close>, \<open>log\<close>, \<open>state\<close>), the \<open>print\<close>
  statements, and the calls to the database driver and to the UUID generator.
  \<open>Fetchall\<close> carries the rows the cursor yielded and \<open>Uuid4\<close> the identifier
  generated.
\<close>

datatype event =
    Progress nat nat string
  | Log string string
  | Print string
  | Connect string int string string string int
  | Execute string
  | Fetchall "row list"
  | CursorClose
  | Rollback
  | ConnClose
  | Uuid4 string
  | State "string option" saved_state
  | Retrying nat

text \<open>
  The environment: the database driver (psycopg2), the randomness behind \<open>uuid.uuid4\<close>
  and the list \<open>KEY_STRATEGY\<close> of the module \<open>keystrategy\<close> (imported by the source;
  each strategy maps the candidate key descriptors to the chosen ones). The driver works
  on a world of type \<open>'w\<close>; a call may raise one of psycopg2's errors. \<open>psycopg2_connect\<close>
  stands for \<open>psycopg2.connect(...)\<close> followed by \<open>conn.cursor(...)\<close> and yields the
  two handles.
\<close>

record 'w env =
  KEY_STRATEGY :: "(row list \<Rightarrow> row list) list"
  psycopg2_connect :: "string \<Rightarrow> int \<Rightarrow> string \<Rightarrow> string \<Rightarrow> string \<Rightarrow> int \<Rightarrow> 'w \<Rightarrow> (dberr + nat \<times> nat) \<times> 'w"
  cursor_execute :: "nat \<Rightarrow> string \<Rightarrow> 'w \<Rightarrow> dberr option \<times> 'w"
  cursor_fetchall :: "nat \<Rightarrow> 'w \<Rightarrow> row list \<times> 'w"
  cursor_close :: "nat \<Rightarrow> 'w \<Rightarrow> dberr option \<times> 'w"
  conn_rollback :: "nat \<Rightarrow> 'w \<Rightarrow> dberr option \<times> 'w"
  conn_close :: "nat \<Rightarrow> 'w \<Rightarrow> dberr option \<times> 'w"
  os_urandom :: "'w \<Rightarrow> 128 word \<times> 'w"

record 'w machine =
  self :: postgres
  world :: 'w
  trace :: "event list"

text \<open>
  A method is a function from the machine to an outcome (\<open>Inl\<close> an exception that
  propagates, \<open>Inr\<close> the value returned) and the machine afterwards: what a method
  changed before it raised stays changed.
\<close>

type_synonym ('a, 'w) meth = "'w machine \<Rightarrow> (exn + 'a) \<times> 'w machine"

definition returnE :: "'a \<Rightarrow> ('a, 'w) meth" where
  "returnE x m = (Inr x, m)"

definition raiseE :: "exn \<Rightarrow> ('a, 'w) meth" where
  "raiseE e m = (Inl e, m)"

definition bindE :: "('a, 'w) meth \<Rightarrow> ('a \<Rightarrow> ('b, 'w) meth) \<Rightarrow> ('b, 'w) meth" where
  "bindE f g m = (case f m of (Inl e, m') \<Rightarrow> (Inl e, m') | (Inr x, m') \<Rightarrow> g x m')"

definition emit :: "event \<Rightarrow> (unit, 'w) meth" where
  "emit ev m = (Inr (), m\<lparr>trace := trace m @ [ev]\<rparr>)"

definition modify_self :: "(postgres \<Rightarrow> postgres) \<Rightarrow> (unit, 'w) meth" where
  "modify_self f m = (Inr (), m\<lparr>self := f (self m)\<rparr>)"

definition gets :: "('w machine \<Rightarrow> 'a) \<Rightarrow> ('a, 'w) meth" where
  "gets f m = (Inr (f m), m)"

text \<open>\<open>try: f except Exception as e: h(e)\<close>; the handler decides what it catches.\<close>

definition try_except :: "('a, 'w) meth \<Rightarrow> (exn \<Rightarrow> ('a, 'w) meth) \<Rightarrow> ('a, 'w) meth" where
  "try_except f h m = (case f m of (Inl e, m') \<Rightarrow> h e m' | (Inr x, m') \<Rightarrow> (Inr x, m'))"

text \<open>A driver call that returns nothing: the world moves on, an error is raised.\<close>

definition driver_call :: "('w \<Rightarrow> dberr option \<times> 'w) \<Rightarrow> (unit, 'w) meth" where
  "driver_call f m =
     (case f (world m) of
        (None, w') \<Rightarrow> (Inr (), m\<lparr>world := w'\<rparr>)
      | (Some e, w') \<Rightarrow> (Inl (Psycopg2 e), m\<lparr>world := w'\<rparr>))"

section \<open>Constants of the module\<close>

definition DEST :: string where
  "DEST = ''{__tablename}''"

definition BATCH_SIZE :: int where
  "BATCH_SIZE = 5000"

definition CONNECT_TIMEOUT :: int where
  "CONNECT_TIMEOUT = 15"

definition MAX_RETRIES :: nat where
  "MAX_RETRIES = 5"

text \<open>The two catalog queries, after \<open>.format(table)\<close>.\<close>

definition SQL_GET_KEYS :: "string \<Rightarrow> string" where
  "SQL_GET_KEYS table =
     ''\<newline>            SELECT a.attname,\<newline>                   format_type(a.atttypid, a.atttypmod) as datatype,\<newline>                   i.indnatts,\<newline>                   i.indisunique,\<newline>                   i.indisprimary\<newline>            FROM   pg_index i\<newline>                   JOIN   pg_attribute a ON a.attrelid = i.indrelid\<newline>                   AND a.attnum = ANY(i.indkey)\<newline>            WHERE  i.indrelid = ''
     @ [CHR 0x27] @ table @ [CHR 0x27] @ ''::regclass\<newline>            ''"

definition SQL_GET_COLUMNS :: "string \<Rightarrow> string" where
  "SQL_GET_COLUMNS table =
     ''\<newline>            SELECT a.attname,\<newline>                    a.attrelid::regclass,\<newline>                   format_type(a.atttypid, a.atttypmod) AS data_type\<newline>            FROM pg_attribute as a\<newline>            WHERE a.attrelid = ''
     @ [CHR 0x27] @ table @ [CHR 0x27] @ ''::regclass\<newline>            and a.attnum > 0;\<newline>            ''"

section \<open>The methods of \<open>Postgres\<close> and the module's functions\<close>

definition Postgres_init :: "source \<Rightarrow> postgres" where
  "Postgres_init src =
     (let st = (case cfg_state src of None \<Rightarrow> \<lparr>last_index = None, last_value = None\<rparr> | Some s \<Rightarrow> s)
      in \<lparr>source = src\<lparr>destination := Some (case destination src of None \<Rightarrow> DEST | Some d \<Rightarrow> d),
                        cfg_state := None\<rparr>,
          batch_size = (case batchSize src of None \<Rightarrow> BATCH_SIZE | Some b \<Rightarrow> b),
          tables = (case cfg_tables src of None \<Rightarrow> [] | Some ts \<Rightarrow> ts),
          index = (case last_index st of None \<Rightarrow> 0 | Some i \<Rightarrow> i),
          conn = None,
          cursor = None,
          state_id = None,
          loaded = 0,
          saved_state = st,
          current_keys = None,
          inckey = (case cfg_inckey src of None \<Rightarrow> [] | Some k \<Rightarrow> k),
          incval = (case cfg_incval src of None \<Rightarrow> PStr [] | Some v \<Rightarrow> v)\<rparr>)"

definition log :: "string \<Rightarrow> string \<Rightarrow> (unit, 'w) meth" where
  "log a b = emit (Log a b)"

definition reset :: "(unit, 'w) meth" where
  "reset = modify_self (\<lambda>s. s\<lparr>loaded := 0, conn := None, cursor := None\<rparr>)"

text \<open>
  \<open>execute\<close>: the \<open>except\<close> clause catches \<open>psycopg2.DatabaseError\<close> and its subclasses
  only; calling \<open>execute\<close> on an unset cursor raises \<open>AttributeError\<close>.
\<close>

definition execute :: "'w env \<Rightarrow> string \<Rightarrow> (unit, 'w) meth" where
  "execute E query =
     bindE (gets (\<lambda>m. loaded (self m))) (\<lambda>n.
     bindE (log query (''Loaded: '' @ str_nat n)) (\<lambda>_.
     bindE (gets (\<lambda>m. cursor (self m))) (\<lambda>cur.
     case cur of
       None \<Rightarrow> raiseE AttributeError
     | Some c \<Rightarrow>
         bindE (try_except
                  (bindE (emit (Execute query)) (\<lambda>_. driver_call (cursor_execute E c query)))
                  (\<lambda>e. if isinstance_DatabaseError e
                       then bindE reset (\<lambda>_.
                            bindE (emit (Print (''Raise error '' @
                                     (case e of Psycopg2 d \<Rightarrow> message d | _ \<Rightarrow> [])))) (\<lambda>_.
                            raiseE e))
                       else raiseE e)) (\<lambda>_.
         log ''DONE'' query))))"

definition fetchall :: "'w env \<Rightarrow> (row list, 'w) meth" where
  "fetchall E m =
     (case cursor (self m) of
        None \<Rightarrow> raiseE AttributeError m
      | Some c \<Rightarrow>
          (case cursor_fetchall E c (world m) of
             (rows, w') \<Rightarrow> (Inr rows, m\<lparr>world := w', trace := trace m @ [Fetchall rows]\<rparr>)))"

definition close :: "'w env \<Rightarrow> (unit, 'w) meth" where
  "close E =
     bindE (gets (\<lambda>m. cursor (self m))) (\<lambda>cur.
     bindE (case cur of
              None \<Rightarrow> returnE ()
            | Some c \<Rightarrow> bindE (emit CursorClose) (\<lambda>_. driver_call (cursor_close E c))) (\<lambda>_.
     bindE (gets (\<lambda>m. conn (self m))) (\<lambda>cn.
     bindE (case cn of
              None \<Rightarrow> returnE ()
            | Some c \<Rightarrow>
                bindE (emit Rollback) (\<lambda>_.
                bindE (driver_call (conn_rollback E c)) (\<lambda>_.
                bindE (emit ConnClose) (\<lambda>_.
                driver_call (conn_close E c))))) (\<lambda>_.
     reset))))"

definition get_max_value :: "'w env \<Rightarrow> string \<Rightarrow> string \<Rightarrow> string \<Rightarrow> (pyval, 'w) meth" where
  \<open>get_max_value E schema table column =
     (if column = [] then returnE PNone
      else
        bindE (execute E (''SELECT MAX("'' @ column @ ''") FROM "'' @ schema @ ''"."'' @ table @ ''"'')) (\<lambda>_.
        bindE (fetchall E) (\<lambda>rows.
          case rows of
            [] \<Rightarrow> raiseE IndexError
          | r # _ \<Rightarrow> (case r ''max'' of None \<Rightarrow> raiseE KeyError | Some v \<Rightarrow> returnE v))))\<close>

definition get_table_metadata :: "'w env \<Rightarrow> (string \<Rightarrow> string) \<Rightarrow> string \<Rightarrow> (row list, 'w) meth" where
  "get_table_metadata E sql table = bindE (execute E (sql table)) (\<lambda>_. fetchall E)"

text \<open>
  \<open>_report_state\<close>: the ordering-key names are read off \<open>current_keys\<close>, the values off
  the last row with \<open>last_row.get(key)\<close>; the host receives a copy of \<open>saved_state\<close>.
\<close>

fun row_get :: "row \<Rightarrow> pyval \<Rightarrow> pyval" where
  "row_get r (PStr k) = dict_get r k"
| "row_get r PNone = PNone"
| "row_get r (PInt i) = PNone"

definition report_state :: "nat \<Rightarrow> row \<Rightarrow> (unit, 'w) meth" where
  "report_state current_index last_row m =
     (case current_keys (self m) of
        None \<Rightarrow> raiseE TypeError m
      | Some cks \<Rightarrow>
          (let keys = map (\<lambda>x. dict_get x ''attname'') cks;
               lv = OrderedDict (map (\<lambda>key. (key, row_get last_row key)) keys);
               m1 = m\<lparr>self := (self m)\<lparr>saved_state := \<lparr>last_index = Some current_index, last_value = Some lv\<rparr>\<rparr>\<rparr>
           in emit (State (state_id (self m1)) (saved_state (self m1))) m1))"

text \<open>
  \<open>connect\<close>: the address is split at its last slash, the host part at its last colon.
  The \<open>except\<close> clause catches \<open>psycopg2.OperationalError\<close> only.
\<close>

definition connect :: "'w env \<Rightarrow> source \<Rightarrow> (nat \<times> nat, 'w) meth" where
  "connect E src m =
     (case rsplit1 (CHR ''/'') (addr src) of
        None \<Rightarrow> raiseE ValueError m
      | Some (host0, dbname) \<Rightarrow>
          (case (if CHR '':'' \<in> set host0
                 then (case rsplit1 (CHR '':'') host0 of
                         None \<Rightarrow> None
                       | Some (h, p) \<Rightarrow> map_option (\<lambda>n. (h, n)) (py_int p))
                 else Some (host0, 5432)) of
             None \<Rightarrow> raiseE ValueError m
           | Some (host, port) \<Rightarrow>
               (let m1 = m\<lparr>trace := trace m @ [Connect host port (user src) (password src) dbname CONNECT_TIMEOUT]\<rparr>
                in case psycopg2_connect E host port (user src) (password src) dbname CONNECT_TIMEOUT (world m1) of
                     (Inr handles, w') \<Rightarrow> (Inr handles, m1\<lparr>world := w'\<rparr>)
                   | (Inl (OperationalError msg), w') \<Rightarrow>
                       if str_in ''authentication failed'' msg
                       then (Inl (PanoplyException (''Login failed for user: '' @ user src) False), m1\<lparr>world := w'\<rparr>)
                       else (Inl (Psycopg2 (OperationalError msg)), m1\<lparr>world := w'\<rparr>)
                   | (Inl e, w') \<Rightarrow> (Inl (Psycopg2 e), m1\<lparr>world := w'\<rparr>))))"

text \<open>\<open>key_strategy\<close>: the first strategy with a non-empty result wins, else the keys as given.\<close>

fun key_strategy_loop :: "(row list \<Rightarrow> row list) list \<Rightarrow> row list \<Rightarrow> row list \<Rightarrow> row list" where
  "key_strategy_loop [] keys_copy keys = keys"
| "key_strategy_loop (strategy # rest) keys_copy keys =
     (let results = strategy keys_copy
      in if results \<noteq> [] then results else key_strategy_loop rest keys_copy keys)"

definition key_strategy :: "'w env \<Rightarrow> row list \<Rightarrow> row list" where
  "key_strategy E keys = key_strategy_loop (KEY_STRATEGY E) keys keys"

text \<open>
  \<open>uuid.uuid4()\<close> and \<open>str\<close> of it: sixteen random bytes with the variant and version
  fields forced, printed as 32 hexadecimal digits in groups of 8, 4, 4, 4 and 12.
\<close>

definition uuid4_int :: "128 word \<Rightarrow> 128 word" where
  "uuid4_int r =
     (((r AND NOT (push_bit 48 0xc000)) OR push_bit 48 0x8000) AND NOT (push_bit 64 0xf000)) OR push_bit 76 4"

definition hex_digit :: "nat \<Rightarrow> char" where
  "hex_digit n = ''0123456789abcdef'' ! n"

definition hex32 :: "128 word \<Rightarrow> string" where
  "hex32 w = map (\<lambda>i. hex_digit (unat (drop_bit (4 * i) w AND 0xF))) (rev [0..<32])"

definition uuid_str :: "128 word \<Rightarrow> string" where
  "uuid_str w =
     (let h = hex32 w
      in take 8 h @ ''-'' @ take 4 (drop 8 h) @ ''-'' @ take 4 (drop 12 h) @ ''-'' @
         take 4 (drop 16 h) @ ''-'' @ drop 20 h)"

definition uuid4 :: "'w env \<Rightarrow> (string, 'w) meth" where
  "uuid4 E m =
     (case os_urandom E (world m) of
        (r, w') \<Rightarrow>
          (let u = uuid_str (uuid4_int r)
           in (Inr u, m\<lparr>world := w', trace := trace m @ [Uuid4 u]\<rparr>)))"

text \<open>
  \<open>read\<close>, one attempt (the body of the method). \<open>read_open_cursor\<close> is the block under
  \<open>if not self.cursor:\<close>: connect, resolve the ordering key, read the upper bound, build
  the query and declare the cursor. \<open>no_keys\<close> is \<open>not self.current_keys\<close> (unset,
  or an empty list). \<open>internals\<close> is the dictionary of the three tags.
\<close>

definition no_keys :: "row list option \<Rightarrow> bool" where
  "no_keys ks = (case ks of None \<Rightarrow> True | Some k \<Rightarrow> k = [])"

definition read_open_cursor :: "'w env \<Rightarrow> string \<Rightarrow> string \<Rightarrow> (unit, 'w) meth" where
  "read_open_cursor E schema table =
     bindE (gets (\<lambda>m. source (self m))) (\<lambda>src.
     bindE (connect E src) (\<lambda>(c, k).
     bindE (modify_self (\<lambda>s. s\<lparr>conn := Some c, cursor := Some k\<rparr>)) (\<lambda>_.
     bindE (gets (\<lambda>m. last_value (saved_state (self m)))) (\<lambda>state.
     bindE (gets (\<lambda>m. current_keys (self m))) (\<lambda>ks0.
     bindE (if no_keys ks0
            then bindE (get_table_metadata E SQL_GET_KEYS table)
                   (\<lambda>rows. modify_self (\<lambda>s. s\<lparr>current_keys := Some rows\<rparr>))
            else returnE ()) (\<lambda>_.
     bindE (gets (\<lambda>m. current_keys (self m))) (\<lambda>ks1.
     bindE (if no_keys ks1
            then bindE (get_table_metadata E SQL_GET_COLUMNS table)
                   (\<lambda>rows. modify_self (\<lambda>s. s\<lparr>current_keys := Some (take 1 rows)\<rparr>))
            else returnE ()) (\<lambda>_.
     bindE (gets (\<lambda>m. current_keys (self m))) (\<lambda>ks2.
     bindE (case ks2 of
              None \<Rightarrow> raiseE TypeError
            | Some ks \<Rightarrow> modify_self (\<lambda>s. s\<lparr>current_keys := Some (key_strategy E ks)\<rparr>)) (\<lambda>_.
     bindE (gets (\<lambda>m. inckey (self m))) (\<lambda>ik.
     bindE (get_max_value E schema table ik) (\<lambda>max_value.
     bindE (gets self) (\<lambda>s.
     case get_query schema table (inckey s) (incval s)
            (case current_keys s of None \<Rightarrow> [] | Some ks \<Rightarrow> ks) max_value state of
       Inl e \<Rightarrow> raiseE e
     | Inr q \<Rightarrow> execute E (''DECLARE cur CURSOR FOR '' @ q))))))))))))))"

definition internals :: "string \<Rightarrow> string \<Rightarrow> string \<Rightarrow> row" where
  "internals table schema sid =
     [''__tablename'' \<mapsto> PStr table, ''__schemaname'' \<mapsto> PStr schema, ''__state'' \<mapsto> PStr sid]"

definition read_fetch :: "'w env \<Rightarrow> int \<Rightarrow> string \<Rightarrow> string \<Rightarrow> (row list option, 'w) meth" where
  "read_fetch E bs schema table =
     bindE (execute E (''FETCH FORWARD '' @ str_int bs @ '' FROM cur'')) (\<lambda>_.
     bindE (fetchall E) (\<lambda>fetched.
     bindE (uuid4 E) (\<lambda>u.
     bindE (modify_self (\<lambda>s. s\<lparr>state_id := Some u\<rparr>)) (\<lambda>_.
     bindE (returnE (map (\<lambda>r. r ++ internals table schema u) fetched)) (\<lambda>result.
     bindE (modify_self (\<lambda>s. s\<lparr>loaded := loaded s + length result\<rparr>)) (\<lambda>_.
     if result = [] then
       bindE (close E) (\<lambda>_.
       bindE (modify_self (\<lambda>s. s\<lparr>index := index s + 1, loaded := 0, current_keys := None,
                                   saved_state := \<lparr>last_index = None, last_value = None\<rparr>\<rparr>)) (\<lambda>_.
       returnE (Some result)))
     else
       bindE (gets (\<lambda>m. index (self m))) (\<lambda>i.
       bindE (report_state i (last result)) (\<lambda>_.
       returnE (Some result)))))))))"

definition read_once :: "'w env \<Rightarrow> int option \<Rightarrow> (row list option, 'w) meth" where
  "read_once E bs_arg =
     bindE (gets self) (\<lambda>s.
       if index s \<ge> length (tables s) then returnE None
       else
         (case split1 (CHR ''.'') (t_value (tables s ! index s)) of
            None \<Rightarrow> raiseE ValueError
          | Some (schema, table) \<Rightarrow>
              bindE (emit (Progress (index s + 1) (length (tables s))
                       (''Reading table '' @ str_nat (index s + 1) @ '' ('' @ table @ '') out of '' @
                        str_nat (length (tables s))))) (\<lambda>_.
              bindE (gets (\<lambda>m. cursor (self m))) (\<lambda>cur.
              bindE (if cur = None then read_open_cursor E schema table else returnE ()) (\<lambda>_.
              read_fetch E
                (case bs_arg of
                   None \<Rightarrow> batch_size s
                 | Some b \<Rightarrow> if b = 0 then batch_size s else b)
                schema table)))))"

text \<open>
  The decorator \<open>backoff.on_exception(backoff.expo, psycopg2.DatabaseError,
  max_tries=MAX_RETRIES, on_backoff=_log_backoff)\<close> around \<open>read\<close>: an attempt that
  raises a \<open>DatabaseError\<close> is repeated, after the handler has logged it, until
  \<open>MAX_RETRIES\<close> attempts have been made; any other exception, and the error of the
  last attempt, propagate. The first argument counts the attempts still allowed after
  the current one, the second the attempts already made. The waiting between attempts
  is not part of the model.
\<close>

fun backoff_on_exception :: "nat \<Rightarrow> nat \<Rightarrow> ('a, 'w) meth \<Rightarrow> ('a, 'w) meth" where
  "backoff_on_exception 0 tries target m = target m"
| "backoff_on_exception (Suc further) tries target m =
     (case target m of
        (Inr x, m') \<Rightarrow> (Inr x, m')
      | (Inl e, m') \<Rightarrow>
          if isinstance_DatabaseError e
          then backoff_on_exception further (Suc tries) target (m'\<lparr>trace := trace m' @ [Retrying (Suc tries)]\<rparr>)
          else (Inl e, m'))"

definition read :: "'w env \<Rightarrow> int option \<Rightarrow> (row list option, 'w) meth" where
  "read E bs_arg = backoff_on_exception (MAX_RETRIES - 1) 0 (read_once E bs_arg)"

section \<open>A scripted environment\<close>

text \<open>
  The environment the unit tests build with mocks: the connection attempt either always
  succeeds or always raises, and the outcomes of \<open>cursor.execute\<close>, the results of
  \<open>cursor.fetchall\<close> and the random bytes are taken from lists, one element per call
  (success, no rows and zero once a list is used up). Closing and rolling back
  succeed.
\<close>

record mock_db =
  connect_effect :: "dberr option"
  execute_effects :: "dberr option list"
  fetchall_results :: "row list list"
  random_bytes :: "128 word list"

text \<open>
  Modelled from the spec: the module \<open>keystrategy\<close> is not among the sources. This is
  the first rule of its policy (section 4.1): the primary key is made of all the
  descriptors whose \<open>indisprimary\<close> flag is set.
\<close>

definition primary_key_strategy :: "row list \<Rightarrow> row list" where
  "primary_key_strategy keys = filter (\<lambda>k. truthy (dict_get k ''indisprimary'')) keys"

definition mock_env :: "mock_db env" where
  "mock_env =
     \<lparr>KEY_STRATEGY = [primary_key_strategy],
      psycopg2_connect = (\<lambda>h p u pw d t w. case connect_effect w of None \<Rightarrow> (Inr (1, 1), w) | Some e \<Rightarrow> (Inl e, w)),
      cursor_execute = (\<lambda>c q w. case execute_effects w of [] \<Rightarrow> (None, w) | x # xs \<Rightarrow> (x, w\<lparr>execute_effects := xs\<rparr>)),
      cursor_fetchall = (\<lambda>c w. case fetchall_results w of [] \<Rightarrow> ([], w) | r # rs \<Rightarrow> (r, w\<lparr>fetchall_results := rs\<rparr>)),
      cursor_close = (\<lambda>c w. (None, w)),
      conn_rollback = (\<lambda>c w. (None, w)),
      conn_close = (\<lambda>c w. (None, w)),
      os_urandom = (\<lambda>w. case random_bytes w of [] \<Rightarrow> (0, w) | r # rs \<Rightarrow> (r, w\<lparr>random_bytes := rs\<rparr>))\<rparr>"

definition start :: "source \<Rightarrow> 'w \<Rightarrow> 'w machine" where
  "start src w = \<lparr>self = Postgres_init src, world = w, trace = []\<rparr>"

section \<open>Relations between the machine before and after a call\<close>

text \<open>
  A relation between the machine before and after holds for a method whatever its
  outcome (\<open>always\<close>), or whenever it raises (\<open>on_raise\<close>). The relations used are
  reflexive and transitive, so they compose along \<open>bindE\<close>.
\<close>

definition always :: "('w machine \<Rightarrow> 'w machine \<Rightarrow> bool) \<Rightarrow> ('a, 'w) meth \<Rightarrow> bool" where
  "always R f \<longleftrightarrow> (\<forall>m r m'. f m = (r, m') \<longrightarrow> R m m')"

definition on_raise :: "('w machine \<Rightarrow> 'w machine \<Rightarrow> bool) \<Rightarrow> ('a, 'w) meth \<Rightarrow> bool" where
  "on_raise R f \<longleftrightarrow> (\<forall>m e m'. f m = (Inl e, m') \<longrightarrow> R m m')"

text \<open>
  \<open>quiet P\<close>: the configuration, the table list, the table index and the saved state
  are as before, the trace has grown by events that satisfy \<open>P\<close>, and an engine whose
  cursor came with a connection still is one.
\<close>

definition has_conn :: "postgres \<Rightarrow> bool" where
  "has_conn s \<longleftrightarrow> conn s \<noteq> None \<or> cursor s = None"

definition quiet :: "(event \<Rightarrow> bool) \<Rightarrow> 'w machine \<Rightarrow> 'w machine \<Rightarrow> bool" where
  "quiet P m m' \<longleftrightarrow>
     source (self m') = source (self m) \<and> batch_size (self m') = batch_size (self m) \<and>
     tables (self m') = tables (self m) \<and> index (self m') = index (self m) \<and>
     saved_state (self m') = saved_state (self m) \<and>
     inckey (self m') = inckey (self m) \<and> incval (self m') = incval (self m) \<and>
     (has_conn (self m) \<longrightarrow> has_conn (self m')) \<and>
     (\<exists>evs. trace m' = trace m @ evs \<and> list_all P evs)"

text \<open>The events of the driver, the logger and the generator: all but the reports to the host.\<close>

definition plain :: "event \<Rightarrow> bool" where
  "plain ev = (case ev of State s c \<Rightarrow> False | _ \<Rightarrow> True)"


section \<open>The host's loop and the data of the tests\<close>

text \<open>
  The host calls \<open>read\<close> again and again with the default batch size; \<open>run E n\<close> makes
  \<open>n\<close> such calls and collects what each returned. \<open>statements\<close> lists the SQL texts
  a trace sent to \<open>cursor.execute\<close>, \<open>reports\<close> the checkpoints it handed to the host.
\<close>

fun run :: "'w env \<Rightarrow> nat \<Rightarrow> 'w machine \<Rightarrow> (exn + row list option) list \<times> 'w machine" where
  "run E 0 m = ([], m)"
| "run E (Suc n) m =
     (case read E None m of
        (r, m') \<Rightarrow> (case run E n m' of (rs, m'') \<Rightarrow> (r # rs, m'')))"

fun statements :: "event list \<Rightarrow> string list" where
  "statements [] = []"
| "statements (Execute q # evs) = q # statements evs"
| "statements (ev # evs) = statements evs"

fun reports :: "event list \<Rightarrow> (string option \<times> saved_state) list" where
  "reports [] = []"
| "reports (State sid ck # evs) = (sid, ck) # reports evs"
| "reports (ev # evs) = reports evs"

text \<open>The size of each batch returned, for a list of results.\<close>

definition sizes :: "(exn + row list option) list \<Rightarrow> (exn + nat option) list" where
  "sizes rs = map (map_sum id (map_option length)) rs"

text \<open>The records, the source and the tables of the unit tests.\<close>

definition mock_recs :: "row list" where
  "mock_recs =
     [[''id'' \<mapsto> PInt 1, ''col1'' \<mapsto> PStr ''foo1'', ''col2'' \<mapsto> PStr ''bar1''],
      [''id'' \<mapsto> PInt 2, ''col1'' \<mapsto> PStr ''foo2'', ''col2'' \<mapsto> PStr ''bar2''],
      [''id'' \<mapsto> PInt 3, ''col1'' \<mapsto> PStr ''foo3'', ''col2'' \<mapsto> PStr ''bar3'']]"

definition test_source :: "string \<Rightarrow> string list \<Rightarrow> source" where
  "test_source address names =
     \<lparr>addr = address, user = ''test'', password = ''testpassword'',
      destination = None, batchSize = None,
      cfg_tables = Some (map (\<lambda>v. \<lparr>t_name = v, t_value = v\<rparr>) names),
      cfg_state = None, cfg_inckey = None, cfg_incval = None\<rparr>"

definition mock_world :: "dberr option list \<Rightarrow> row list list \<Rightarrow> 128 word list \<Rightarrow> mock_db" where
  "mock_world effects results randoms =
     \<lparr>connect_effect = None, execute_effects = effects, fetchall_results = results, random_bytes = randoms\<rparr>"

text \<open>
  Three scripted scenarios. \<open>three_tables\<close> is the one of \<open>test_read_end_stream\<close>: each
  table has one ordering-key column and yields the three records and then nothing.
  \<open>retry\<close> is the one of \<open>test_retry_with_last_values\<close>: a primary key of two columns, and
  the fourth statement (the second \<open>FETCH\<close>) fails with a \<open>DatabaseError\<close>. \<open>no_key\<close> is
  the same over a table for which neither catalogue query returns a row, as in
  \<open>test_no_state_for_empty_results\<close>; there the second \<open>FETCH\<close> is the fifth statement.
\<close>

definition three_tables_source :: source where
  "three_tables_source =
     test_source ''test.database.name/foobar'' [''public.table1'', ''public.table2'', ''public.table3'']"

definition three_tables_world :: mock_db where
  "three_tables_world =
     mock_world []
       [[[''attname'' \<mapsto> PStr ''col1'']], mock_recs, [],
        [[''attname'' \<mapsto> PStr ''col2'']], mock_recs, [],
        [[''attname'' \<mapsto> PStr ''col3'']], mock_recs, []]
       [1, 2, 3, 4, 5, 6]"

definition key_rows :: "row list" where
  "key_rows =
     [[''attname'' \<mapsto> PStr ''col1'', ''indisunique'' \<mapsto> PInt 1, ''indisprimary'' \<mapsto> PInt 1],
      [''attname'' \<mapsto> PStr ''col2'', ''indisunique'' \<mapsto> PInt 1, ''indisprimary'' \<mapsto> PInt 1]]"

definition retry_source :: source where
  "retry_source = test_source ''test.database.name/foobar'' [''my_schema.foo_bar'']"

definition retry_world :: mock_db where
  "retry_world =
     mock_world [None, None, None, Some (DatabaseError ''TestRetriesError'')]
       [key_rows, mock_recs, mock_recs] [1, 2]"

definition no_key_world :: mock_db where
  "no_key_world =
     mock_world [None, None, None, None, Some (DatabaseError ''TestRetriesError'')]
       [[], [], mock_recs, [], [], mock_recs] [1, 2]"

section \<open>Properties of the built-ins\<close>

lemma map_PStr_eq [simp]: "map PStr a = map PStr b \<longleftrightarrow> a = b"
  by (rule inj_map_eq_map) (simp add: inj_def)

lemma str_items_map_PStr [simp]: "str_items (map PStr ss) = Some ss"
  by (induction ss) auto

lemma str_items_Some_iff: "str_items xs = Some ss \<longleftrightarrow> xs = map PStr ss"
proof (induction xs arbitrary: ss)
  case Nil
  then show ?case by auto
next
  case (Cons x xs)
  then show ?case by (cases x) auto
qed

lemma join_Inr_iff: "join sep xs = Inr s \<longleftrightarrow> (\<exists>ss. xs = map PStr ss \<and> s = join_strs sep ss)"
  by (auto simp: join_def str_items_Some_iff split: option.splits)

lemma join_map_PStr: "join sep (map PStr ss) = Inr (join_strs sep ss)"
  by (simp add: join_Inr_iff)

lemma all_PStr_map:
  "\<forall>x \<in> set xs. \<exists>s. f x = PStr s \<Longrightarrow> \<exists>ss. map f xs = map PStr ss"
proof (induction xs)
  case Nil
  then show ?case by simp
next
  case (Cons x xs)
  then obtain ss s where "map f xs = map PStr ss" and "f x = PStr s"
    by auto
  then have "map f (x # xs) = map PStr (s # ss)"
    by simp
  then show ?case by blast
qed

section \<open>The query builder: its three parts\<close>

lemma get_query_Inr_iff:
  "get_query schema table ikey ival keys maxv state = Inr q \<longleftrightarrow>
     (\<exists>orderby w. get_query_orderby ikey keys = Inr orderby \<and> get_query_resume state = Inr w \<and>
        q = select_from schema table @ get_query_where ikey ival maxv w @ orderby)"
  by (auto simp: get_query_def split: sum.splits)

lemma get_query_resume_Some:
  "st \<noteq> [] \<Longrightarrow> get_query_resume (Some st) = Inr w \<longleftrightarrow>
     (\<exists>cols. map fst st = map PStr cols \<and>
        w = (if length st > 1
             then ''('' @ join_strs '','' cols @ '') >= ('' @ join_strs '','' (map (\<lambda>x. quoted x) (map snd st)) @ '')''
             else join_strs '','' cols @ '' >= '' @ join_strs '','' (map (\<lambda>x. quoted x) (map snd st))))"
  by (auto simp: get_query_resume_def join_Inr_iff join_map_PStr Let_def split: sum.splits)

lemma get_query_where_prefix:
  "w \<noteq> [] \<Longrightarrow> \<exists>rest. get_query_where ikey ival maxv w = '' WHERE '' @ w @ rest"
  by (simp add: get_query_where_def Let_def)

lemma get_query_orderby_total:
  assumes "\<forall>k \<in> set keys. \<exists>s. dict_get k ''attname'' = PStr s"
  shows "\<exists>ob. get_query_orderby ikey keys = Inr ob"
proof -
  obtain ss where ss: "map (\<lambda>key. dict_get key ''attname'') keys = map PStr ss"
    using all_PStr_map [OF assms] by blast
  have "map (\<lambda>key. dict_get key ''attname'') keys @ [PStr ikey] = map PStr (ss @ [ikey])"
    using ss by simp
  then show ?thesis
    unfolding get_query_orderby_def Let_def
    using ss by (auto simp: join_map_PStr simp del: map_append split: sum.splits)
qed

section \<open>C1: the resume predicate\<close>

text \<open>
  C1. For every call to \<open>get_query\<close> with a non-empty resume state, the text returned is
  the SELECT, then \<open>WHERE\<close>, then the resume predicate, then the rest of the query. The
  predicate compares the state's column names, in their stored order and joined by commas,
  with their values, each rendered between single quotes, by \<open>>=\<close>; both sides stand in
  parentheses unless the state has exactly one column. The call returns a text whenever the
  column names of the state and of the keys are strings. For schema \<open>public\<close>, table
  \<open>foo\<close>, ordering key \<open>[pk1, pk2]\<close>, resume state \<open>{pk1: "1", pk2: "1994-09-16"}\<close>, no
  incremental column and no upper bound, the text is exactly the one the specification
  gives.
\<close>

theorem C1_resume_predicate:
  \<open>st \<noteq> [] \<Longrightarrow>
    (\<forall>q. get_query schema table ikey ival keys maxv (Some st) = Inr q \<longrightarrow>
       (\<exists>cols rest. map fst st = map PStr cols \<and>
          q = ''SELECT * FROM "'' @ schema @ ''"."'' @ table @ ''" WHERE '' @
              (if length st = 1
               then join_strs '','' cols @ '' >= '' @
                    join_strs '','' (map (\<lambda>(c, v). [CHR 0x27] @ py_str v @ [CHR 0x27]) st)
               else ''('' @ join_strs '','' cols @ '') >= ('' @
                    join_strs '','' (map (\<lambda>(c, v). [CHR 0x27] @ py_str v @ [CHR 0x27]) st) @ '')'')
              @ rest))
    \<and> ((\<exists>cols. map fst st = map PStr cols) \<and> (\<forall>k \<in> set keys. \<exists>s. dict_get k ''attname'' = PStr s) \<longrightarrow>
         (\<exists>q. get_query schema table ikey ival keys maxv (Some st) = Inr q))
    \<and> get_query ''public'' ''foo'' [] (PStr []) [[''attname'' \<mapsto> PStr ''pk1''], [''attname'' \<mapsto> PStr ''pk2'']] PNone
          (Some [(PStr ''pk1'', PStr ''1''), (PStr ''pk2'', PStr ''1994-09-16'')])
        = Inr ''SELECT * FROM "public"."foo" WHERE (pk1,pk2) >= ('1','1994-09-16') ORDER BY pk1,pk2''\<close>
proof (intro conjI allI impI)
  fix q
  assume ne: "st \<noteq> []" and q: "get_query schema table ikey ival keys maxv (Some st) = Inr q"
  from q obtain orderby w where
    w: "get_query_resume (Some st) = Inr w" and
    qq: "q = select_from schema table @ get_query_where ikey ival maxv w @ orderby"
    by (auto simp: get_query_Inr_iff)
  from w ne obtain cols where cols: "map fst st = map PStr cols" and
    wv: "w = (if length st > 1
             then ''('' @ join_strs '','' cols @ '') >= ('' @ join_strs '','' (map (\<lambda>x. quoted x) (map snd st)) @ '')''
             else join_strs '','' cols @ '' >= '' @ join_strs '','' (map (\<lambda>x. quoted x) (map snd st)))"
    by (auto simp: get_query_resume_Some)
  have wne: "w \<noteq> []" using wv by (auto split: if_splits)
  then obtain rest0 where r0: "get_query_where ikey ival maxv w = '' WHERE '' @ w @ rest0"
    using get_query_where_prefix by blast
  have qm: "map quoted (map snd st) = map (\<lambda>(c, v). [CHR 0x27] @ py_str v @ [CHR 0x27]) st"
    by (induction st) (auto simp: quoted_def)
  note wv' = wv [unfolded qm]
  have len: "length st = 1 \<longleftrightarrow> \<not> length st > 1" using ne by (cases st) auto
  show \<open>\<exists>cols rest. map fst st = map PStr cols \<and>
          q = ''SELECT * FROM "'' @ schema @ ''"."'' @ table @ ''" WHERE '' @
              (if length st = 1
               then join_strs '','' cols @ '' >= '' @
                    join_strs '','' (map (\<lambda>(c, v). [CHR 0x27] @ py_str v @ [CHR 0x27]) st)
               else ''('' @ join_strs '','' cols @ '') >= ('' @
                    join_strs '','' (map (\<lambda>(c, v). [CHR 0x27] @ py_str v @ [CHR 0x27]) st) @ '')'')
              @ rest\<close>
    apply (rule exI [of _ cols], rule exI [of _ "rest0 @ orderby"])
    using cols qq r0 wv' len by (auto simp: select_from_def)
next
  assume ne: "st \<noteq> []"
    and h: "(\<exists>cols. map fst st = map PStr cols) \<and> (\<forall>k \<in> set keys. \<exists>s. dict_get k ''attname'' = PStr s)"
  then obtain cols where cols: "map fst st = map PStr cols" by blast
  from h obtain ob where ob: "get_query_orderby ikey keys = Inr ob"
    using get_query_orderby_total by blast
  have "\<exists>w. get_query_resume (Some st) = Inr w"
    using ne cols by (simp add: get_query_resume_Some)
  then show "\<exists>q. get_query schema table ikey ival keys maxv (Some st) = Inr q"
    using ob by (auto simp: get_query_Inr_iff)
next
  show \<open>get_query ''public'' ''foo'' [] (PStr []) [[''attname'' \<mapsto> PStr ''pk1''], [''attname'' \<mapsto> PStr ''pk2'']] PNone
          (Some [(PStr ''pk1'', PStr ''1''), (PStr ''pk2'', PStr ''1994-09-16'')])
        = Inr ''SELECT * FROM "public"."foo" WHERE (pk1,pk2) >= ('1','1994-09-16') ORDER BY pk1,pk2''\<close>
    by (simp add: get_query_def get_query_orderby_def get_query_resume_def get_query_where_def
        select_from_def join_def dict_get_def quoted_def)
qed

text \<open>
  The theorem at the resume state of the recovery test: one column, \<open>id\<close>, last value
  100, on table \<open>public.test2\<close>.
\<close>

theorem C1_resume_predicate_witness:
  \<open>get_query ''public'' ''test2'' [] (PStr []) [[''attname'' \<mapsto> PStr ''id'']] PNone (Some [(PStr ''id'', PInt 100)])
     = Inr ''SELECT * FROM "public"."test2" WHERE id >= '100' ORDER BY id''
   \<and> (\<exists>cols rest. [PStr ''id''] = map PStr cols \<and>
         ''SELECT * FROM "public"."test2" WHERE id >= '100' ORDER BY id''
           = ''SELECT * FROM "public"."test2" WHERE '' @ join_strs '','' cols @ '' >= '' @ [CHR 0x27] @ ''100'' @ [CHR 0x27] @ rest)\<close>
proof -
  have ne: "[(PStr ''id'', PInt 100)] \<noteq> []"
    by simp
  have e: \<open>get_query ''public'' ''test2'' [] (PStr []) [[''attname'' \<mapsto> PStr ''id'']] PNone (Some [(PStr ''id'', PInt 100)])
     = Inr ''SELECT * FROM "public"."test2" WHERE id >= '100' ORDER BY id''\<close>
    by (simp add: get_query_def get_query_orderby_def get_query_resume_def get_query_where_def
        select_from_def join_def dict_get_def quoted_def str_int_def str_nat.simps)
  have s100: "str_int 100 = ''100''"
    by (simp add: str_int_def str_nat.simps)
  from C1_resume_predicate [OF ne, of "''public''" "''test2''" "[]" "PStr []" "[[''attname'' \<mapsto> PStr ''id'']]" PNone,
      THEN conjunct1, rule_format, OF e]
  show ?thesis
    using e s100 by simp
qed

section \<open>C5: the incremental predicate\<close>

lemma get_query_resume_total:
  assumes "\<forall>st. state = Some st \<longrightarrow> (\<exists>cols. map fst st = map PStr cols)"
  shows "\<exists>w. get_query_resume state = Inr w"
proof (cases state)
  case None
  then show ?thesis by (simp add: get_query_resume_def)
next
  case (Some st)
  with assms obtain cols where "map fst st = map PStr cols" by blast
  show ?thesis
  proof (cases "st = []")
    case True
    with Some show ?thesis by (simp add: get_query_resume_def)
  next
    case False
    with Some \<open>map fst st = map PStr cols\<close> show ?thesis
      by (simp add: get_query_resume_Some)
  qed
qed

text \<open>
  C5. The source decides whether the incremental column is already referenced by the
  resume predicate with \<open>inckey not in where\<close>, a substring test on the predicate's text,
  and whether an upper bound is known with \<open>if max_value:\<close>, a truthiness test. Two calls
  show what follows. With incremental column \<open>id\<close>, lower bound \<open>5\<close> and resume state
  \<open>{user_id: 7}\<close>, the column \<open>id\<close> is not a column of the resume predicate (the
  ORDER BY clause, which tests membership in the key list, appends it), yet the WHERE
  clause has no predicate \<open>id >= '5'\<close>, because \<open>id\<close> occurs inside \<open>user_id\<close>. With
  incremental column \<open>v\<close>, lower bound \<open>0\<close> and a maximum observed value of 0, the
  upper bound is known and the WHERE clause is \<open>v >= '0'\<close> without it; with a maximum
  of 10 the bound is there.
\<close>

theorem C5_incremental_predicate_failures:
  \<open>get_query ''public'' ''orders'' ''id'' (PStr ''5'') [[''attname'' \<mapsto> PStr ''user_id'']] PNone
       (Some [(PStr ''user_id'', PStr ''7'')])
     = Inr ''SELECT * FROM "public"."orders" WHERE user_id >= '7' ORDER BY user_id,id''
   \<and> get_query ''public'' ''t'' ''v'' (PStr ''0'') [[''attname'' \<mapsto> PStr ''pk'']] (PInt 0) None
     = Inr ''SELECT * FROM "public"."t" WHERE v >= '0' ORDER BY pk,v''
   \<and> get_query ''public'' ''t'' ''v'' (PStr ''0'') [[''attname'' \<mapsto> PStr ''pk'']] (PInt 10) None
     = Inr ''SELECT * FROM "public"."t" WHERE (v >= '0' AND v <= 10) ORDER BY pk,v''\<close>
  by (simp add: get_query_def get_query_orderby_def get_query_resume_def get_query_where_def
      select_from_def join_def dict_get_def quoted_def str_int_def str_nat.simps)

section \<open>C6: the ORDER BY clause\<close>

text \<open>
  C6. When the key list is not empty, the text returned ends with the ORDER BY clause:
  the key columns in their given order, followed by the incremental column exactly when
  it is set and not among them, so that it is never listed twice by the builder (a list
  of distinct key columns stays distinct). When the key list is empty and no
  incremental column is set, nothing follows the SELECT and its WHERE clause. The call
  returns a text whenever the column names of the keys and of the state are strings,
  and it is a function of its arguments: equal arguments give equal texts.
\<close>

theorem C6_order_by:
  "(keys \<noteq> [] \<longrightarrow>
      (\<forall>q. get_query schema table ikey ival keys maxv state = Inr q \<longrightarrow>
         (\<exists>names w. map (\<lambda>k. dict_get k ''attname'') keys = map PStr names \<and>
            get_query_resume state = Inr w \<and>
            q = select_from schema table @ get_query_where ikey ival maxv w @ '' ORDER BY '' @
                join_strs '','' (names @ (if ikey \<noteq> [] \<and> ikey \<notin> set names then [ikey] else [])) \<and>
            (distinct names \<longrightarrow>
               distinct (names @ (if ikey \<noteq> [] \<and> ikey \<notin> set names then [ikey] else []))))))
   \<and> (keys = [] \<and> ikey = [] \<longrightarrow>
        (\<forall>q. get_query schema table ikey ival keys maxv state = Inr q \<longrightarrow>
           (\<exists>w. get_query_resume state = Inr w \<and>
              q = select_from schema table @ (if w = [] then [] else '' WHERE '' @ w))))
   \<and> ((\<forall>k \<in> set keys. \<exists>s. dict_get k ''attname'' = PStr s) \<and>
        (\<forall>st. state = Some st \<longrightarrow> (\<exists>cols. map fst st = map PStr cols)) \<longrightarrow>
        (\<exists>q. get_query schema table ikey ival keys maxv state = Inr q))
   \<and> (schema' = schema \<and> table' = table \<and> ikey' = ikey \<and> ival' = ival \<and> keys' = keys \<and>
        maxv' = maxv \<and> state' = state \<longrightarrow>
        get_query schema' table' ikey' ival' keys' maxv' state' = get_query schema table ikey ival keys maxv state)"
proof (intro conjI allI impI)
  fix q
  assume ne: "keys \<noteq> []" and q: "get_query schema table ikey ival keys maxv state = Inr q"
  from q obtain orderby w where
    ob: "get_query_orderby ikey keys = Inr orderby" and
    w: "get_query_resume state = Inr w" and
    qq: "q = select_from schema table @ get_query_where ikey ival maxv w @ orderby"
    by (auto simp: get_query_Inr_iff)
  let ?ks = "map (\<lambda>key. dict_get key ''attname'') keys"
  let ?ks' = "if ikey \<noteq> [] \<and> PStr ikey \<notin> set ?ks then ?ks @ [PStr ikey] else ?ks"
  from ob ne obtain s where j: "join '','' ?ks' = Inr s" and obs: "orderby = '' ORDER BY '' @ s"
    by (auto simp: get_query_orderby_def Let_def split: sum.splits if_splits)
  from j obtain ss where ss: "?ks' = map PStr ss" and s: "s = join_strs '','' ss"
    by (auto simp: join_Inr_iff)
  have "\<exists>names. ?ks = map PStr names"
  proof (cases "ikey \<noteq> [] \<and> PStr ikey \<notin> set ?ks")
    case True
    with ss have "?ks @ [PStr ikey] = map PStr ss" by simp
    then have "butlast (?ks @ [PStr ikey]) = butlast (map PStr ss)"
      by (rule arg_cong)
    then have "?ks = map PStr (butlast ss)"
      by (simp add: map_butlast)
    then show ?thesis by blast
  next
    case False
    with ss show ?thesis by auto
  qed
  then obtain names where names: "?ks = map PStr names" by blast
  have mem: "PStr ikey \<in> set ?ks \<longleftrightarrow> ikey \<in> set names"
    unfolding names by auto
  have "map PStr ss = map PStr (names @ (if ikey \<noteq> [] \<and> ikey \<notin> set names then [ikey] else []))"
    using ss names mem by (auto split: if_splits)
  then have ss': "ss = names @ (if ikey \<noteq> [] \<and> ikey \<notin> set names then [ikey] else [])"
    by (simp only: map_PStr_eq)
  show "\<exists>names w. map (\<lambda>k. dict_get k ''attname'') keys = map PStr names \<and>
            get_query_resume state = Inr w \<and>
            q = select_from schema table @ get_query_where ikey ival maxv w @ '' ORDER BY '' @
                join_strs '','' (names @ (if ikey \<noteq> [] \<and> ikey \<notin> set names then [ikey] else [])) \<and>
            (distinct names \<longrightarrow>
               distinct (names @ (if ikey \<noteq> [] \<and> ikey \<notin> set names then [ikey] else [])))"
  proof (intro exI conjI)
    show "map (\<lambda>k. dict_get k ''attname'') keys = map PStr names"
      by (rule names)
    show "get_query_resume state = Inr w"
      by (rule w)
    show "q = select_from schema table @ get_query_where ikey ival maxv w @ '' ORDER BY '' @
                join_strs '','' (names @ (if ikey \<noteq> [] \<and> ikey \<notin> set names then [ikey] else []))"
      unfolding qq obs s ss' by (rule refl)
    show "distinct names \<longrightarrow>
               distinct (names @ (if ikey \<noteq> [] \<and> ikey \<notin> set names then [ikey] else []))"
      by simp
  qed
next
  fix q
  assume e: "keys = [] \<and> ikey = []" and q: "get_query schema table ikey ival keys maxv state = Inr q"
  from q obtain orderby w where
    ob: "get_query_orderby ikey keys = Inr orderby" and
    w: "get_query_resume state = Inr w" and
    qq: "q = select_from schema table @ get_query_where ikey ival maxv w @ orderby"
    by (auto simp: get_query_Inr_iff)
  from ob e have "orderby = []"
    by (simp add: get_query_orderby_def)
  moreover from e have "get_query_where ikey ival maxv w = (if w = [] then [] else '' WHERE '' @ w)"
    by (simp add: get_query_where_def)
  ultimately show "\<exists>w. get_query_resume state = Inr w \<and>
      q = select_from schema table @ (if w = [] then [] else '' WHERE '' @ w)"
    using w qq by auto
next
  assume h: "(\<forall>k \<in> set keys. \<exists>s. dict_get k ''attname'' = PStr s) \<and>
        (\<forall>st. state = Some st \<longrightarrow> (\<exists>cols. map fst st = map PStr cols))"
  then obtain ob w where "get_query_orderby ikey keys = Inr ob" "get_query_resume state = Inr w"
    using get_query_orderby_total get_query_resume_total by blast
  then show "\<exists>q. get_query schema table ikey ival keys maxv state = Inr q"
    by (auto simp: get_query_Inr_iff)
next
  assume "schema' = schema \<and> table' = table \<and> ikey' = ikey \<and> ival' = ival \<and> keys' = keys \<and>
        maxv' = maxv \<and> state' = state"
  then show "get_query schema' table' ikey' ival' keys' maxv' state' = get_query schema table ikey ival keys maxv state"
    by simp
qed

text \<open>
  The theorem on the tests' inputs: keys \<open>pk1, pk2\<close> with incremental column \<open>pk3\<close>,
  then with incremental column \<open>pk2\<close> (already a key), and no keys at all.
\<close>

theorem C6_order_by_witness:
  \<open>get_query ''public'' ''test'' ''pk3'' (PStr []) [[''attname'' \<mapsto> PStr ''pk1''], [''attname'' \<mapsto> PStr ''pk2'']] PNone None
     = Inr ''SELECT * FROM "public"."test" ORDER BY pk1,pk2,pk3''
   \<and> get_query ''public'' ''test'' ''pk2'' (PStr []) [[''attname'' \<mapsto> PStr ''pk1''], [''attname'' \<mapsto> PStr ''pk2'']] PNone None
     = Inr ''SELECT * FROM "public"."test" ORDER BY pk1,pk2''
   \<and> get_query ''public'' ''test'' [] (PStr []) [] PNone None = Inr ''SELECT * FROM "public"."test"''
   \<and> (\<exists>names w. map (\<lambda>k. dict_get k ''attname'') [[''attname'' \<mapsto> PStr ''pk1''], [''attname'' \<mapsto> PStr ''pk2'']]
           = map PStr names \<and>
         get_query_resume None = Inr w \<and>
         ''SELECT * FROM "public"."test" ORDER BY pk1,pk2,pk3''
           = select_from ''public'' ''test'' @ get_query_where ''pk3'' (PStr []) PNone w @ '' ORDER BY '' @
             join_strs '','' (names @ (if ''pk3'' \<noteq> [] \<and> ''pk3'' \<notin> set names then [''pk3''] else [])) \<and>
         (distinct names \<longrightarrow>
            distinct (names @ (if ''pk3'' \<noteq> [] \<and> ''pk3'' \<notin> set names then [''pk3''] else []))))
   \<and> (\<exists>w. get_query_resume None = Inr w \<and>
         ''SELECT * FROM "public"."test"'' = select_from ''public'' ''test'' @ (if w = [] then [] else '' WHERE '' @ w))\<close>
proof -
  let ?keys = "[[''attname'' \<mapsto> PStr ''pk1''], [''attname'' \<mapsto> PStr ''pk2'']] :: row list"
  have e1: \<open>get_query ''public'' ''test'' ''pk3'' (PStr []) ?keys PNone None
     = Inr ''SELECT * FROM "public"."test" ORDER BY pk1,pk2,pk3''\<close>
    by (simp add: get_query_def get_query_orderby_def get_query_resume_def get_query_where_def
        select_from_def join_def dict_get_def)
  have e2: \<open>get_query ''public'' ''test'' ''pk2'' (PStr []) ?keys PNone None
     = Inr ''SELECT * FROM "public"."test" ORDER BY pk1,pk2''\<close>
    by (simp add: get_query_def get_query_orderby_def get_query_resume_def get_query_where_def
        select_from_def join_def dict_get_def)
  have e3: \<open>get_query ''public'' ''test'' [] (PStr []) [] PNone None = Inr ''SELECT * FROM "public"."test"''\<close>
    by (simp add: get_query_def get_query_orderby_def get_query_resume_def get_query_where_def
        select_from_def)
  have ne: "?keys \<noteq> []"
    by simp
  have em: "([] :: row list) = [] \<and> ([] :: string) = []"
    by simp
  note t1 = C6_order_by [of ?keys "''public''" "''test''" "''pk3''" "PStr []" PNone None,
        THEN conjunct1, rule_format, OF ne e1]
  note t2 = C6_order_by [of "[]" "''public''" "''test''" "[]" "PStr []" PNone None,
        THEN conjunct2, THEN conjunct1, rule_format, OF em e3]
  show ?thesis
    by (intro conjI) (rule e1 e2 e3 t1 t2)+
qed

section \<open>Reasoning about methods\<close>

lemma bindE_Inr_iff:
  "bindE f g m = (Inr r, m') \<longleftrightarrow> (\<exists>x m1. f m = (Inr x, m1) \<and> g x m1 = (Inr r, m'))"
  by (auto simp: bindE_def split: prod.splits sum.splits)

lemma bindE_Inl_iff:
  "bindE f g m = (Inl e, m') \<longleftrightarrow>
     f m = (Inl e, m') \<or> (\<exists>x m1. f m = (Inr x, m1) \<and> g x m1 = (Inl e, m'))"
  by (auto simp: bindE_def split: prod.splits sum.splits)

lemma bindE_cases:
  assumes "bindE f g m = (r, m')"
  obtains (fails) e where "f m = (Inl e, m')" "r = Inl e"
        | (goes_on) x m1 where "f m = (Inr x, m1)" "g x m1 = (r, m')"
  using assms by (auto simp: bindE_def split: prod.splits sum.splits)

lemma alwaysD: "always R f \<Longrightarrow> f m = (r, m') \<Longrightarrow> R m m'"
  by (auto simp: always_def)

lemma on_raiseD: "on_raise R f \<Longrightarrow> f m = (Inl e, m') \<Longrightarrow> R m m'"
  by (auto simp: on_raise_def)

lemma always_on_raise: "always R f \<Longrightarrow> on_raise R f"
  by (auto simp: always_def on_raise_def)

lemma always_bindE:
  assumes "transp R" "always R f" "\<And>x. always R (g x)"
  shows "always R (bindE f g)"
  unfolding always_def
proof (intro allI impI)
  fix m r m'
  assume "bindE f g m = (r, m')"
  then show "R m m'"
  proof (cases rule: bindE_cases)
    case (fails e)
    then show ?thesis using assms(2) by (auto dest: alwaysD)
  next
    case (goes_on x m1)
    then have "R m m1" "R m1 m'"
      using assms(2,3) by (auto dest: alwaysD)
    then show ?thesis using assms(1) by (auto dest: transpD)
  qed
qed

lemma on_raise_bindE:
  assumes "transp R" "always R f" "\<And>x. on_raise R (g x)"
  shows "on_raise R (bindE f g)"
  unfolding on_raise_def
proof (intro allI impI)
  fix m e m'
  assume "bindE f g m = (Inl e, m')"
  then show "R m m'"
  proof (cases rule: bindE_cases)
    case (fails e')
    then show ?thesis using assms(2) by (auto dest: alwaysD)
  next
    case (goes_on x m1)
    then have "R m m1" "R m1 m'"
      using assms(2,3) by (auto dest: alwaysD on_raiseD)
    then show ?thesis using assms(1) by (auto dest: transpD)
  qed
qed

lemma always_returnE: "reflp R \<Longrightarrow> always R (returnE x)"
  by (auto simp: always_def returnE_def dest: reflpD)

lemma always_raiseE: "reflp R \<Longrightarrow> always R (raiseE e)"
  by (auto simp: always_def raiseE_def dest: reflpD)

lemma on_raise_returnE: "on_raise R (returnE x)"
  by (auto simp: on_raise_def returnE_def)

lemma always_gets: "reflp R \<Longrightarrow> always R (gets f)"
  by (auto simp: always_def gets_def dest: reflpD)

lemma always_try_except:
  assumes "transp R" "always R f" "\<And>e. always R (h e)"
  shows "always R (try_except f h)"
  unfolding always_def
proof (intro allI impI)
  fix m r m'
  assume a: "try_except f h m = (r, m')"
  obtain r1 m1 where f: "f m = (r1, m1)"
    by (cases "f m")
  then have R1: "R m m1"
    using assms(2) by (auto dest: alwaysD)
  show "R m m'"
  proof (cases r1)
    case (Inl e)
    with a f have "h e m1 = (r, m')"
      by (simp add: try_except_def)
    then have "R m1 m'"
      using assms(3) by (auto dest: alwaysD)
    with R1 show ?thesis
      using assms(1) by (auto dest: transpD)
  next
    case (Inr x)
    with a f have "m' = m1"
      by (simp add: try_except_def)
    with R1 show ?thesis by simp
  qed
qed

lemma always_if: "always R f \<Longrightarrow> always R g \<Longrightarrow> always R (if b then f else g)"
  by simp

lemma always_case_option:
  "always R f \<Longrightarrow> (\<And>x. always R (g x)) \<Longrightarrow> always R (case v of None \<Rightarrow> f | Some x \<Rightarrow> g x)"
  by (cases v) auto

lemma always_case_sum:
  "(\<And>x. always R (f x)) \<Longrightarrow> (\<And>x. always R (g x)) \<Longrightarrow> always R (case v of Inl x \<Rightarrow> f x | Inr x \<Rightarrow> g x)"
  by (cases v) auto

lemma always_case_list:
  "always R f \<Longrightarrow> (\<And>x xs. always R (g x xs)) \<Longrightarrow> always R (case v of [] \<Rightarrow> f | x # xs \<Rightarrow> g x xs)"
  by (cases v) auto

lemma always_case_prod:
  "(\<And>a b. always R (f a b)) \<Longrightarrow> always R (case v of (a, b) \<Rightarrow> f a b)"
  by (cases v) auto

lemma reflp_quiet: "reflp (quiet P)"
  by (auto simp: reflp_def quiet_def)

lemma transp_quiet: "transp (quiet P)"
proof (rule transpI)
  fix a b c :: "'a machine"
  assume ab: "quiet P a b" and bc: "quiet P b c"
  from ab obtain e1 where e1: "trace b = trace a @ e1" "list_all P e1"
    by (auto simp: quiet_def)
  from bc obtain e2 where e2: "trace c = trace b @ e2" "list_all P e2"
    by (auto simp: quiet_def)
  have "trace c = trace a @ (e1 @ e2)" "list_all P (e1 @ e2)"
    using e1 e2 by simp_all
  then have "\<exists>evs. trace c = trace a @ evs \<and> list_all P evs"
    by blast
  then show "quiet P a c"
    using ab bc unfolding quiet_def by simp
qed

lemma quiet_mono: "(\<And>e. P e \<Longrightarrow> Q e) \<Longrightarrow> quiet P m m' \<Longrightarrow> quiet Q m m'"
  unfolding quiet_def by (auto simp: list_all_iff)

lemmas quiet_intros =
  always_bindE [OF transp_quiet] always_returnE [OF reflp_quiet] always_raiseE [OF reflp_quiet]
  always_gets [OF reflp_quiet] always_try_except [OF transp_quiet]
  always_if always_case_option always_case_sum always_case_list always_case_prod

lemma quiet_emit: "P ev \<Longrightarrow> always (quiet P) (emit ev)"
  by (auto simp: always_def emit_def quiet_def)

lemma quiet_log: "P (Log a b) \<Longrightarrow> always (quiet P) (log a b)"
  by (simp add: log_def quiet_emit)

lemma quiet_driver_call: "always (quiet P) (driver_call f)"
  by (auto simp: always_def driver_call_def quiet_def split: prod.splits option.splits)

lemma quiet_modify_self:
  assumes "\<And>s. source (f s) = source s \<and> batch_size (f s) = batch_size s \<and> tables (f s) = tables s \<and>
             index (f s) = index s \<and> saved_state (f s) = saved_state s \<and> inckey (f s) = inckey s \<and>
             incval (f s) = incval s \<and> (has_conn s \<longrightarrow> has_conn (f s))"
  shows "always (quiet P) (modify_self f)"
  using assms by (auto simp: always_def modify_self_def quiet_def)

lemma quiet_reset: "always (quiet P) reset"
  unfolding reset_def by (rule quiet_modify_self) (simp add: has_conn_def)

lemma plain_simps [simp]:
  "plain (Progress a b c)" "plain (Log s t)" "plain (Print s)" "plain (Connect h p u pw d t')"
  "plain (Execute q)" "plain (Fetchall rows)" "plain CursorClose" "plain Rollback" "plain ConnClose"
  "plain (Uuid4 u)" "plain (Retrying n)" "\<not> plain (State sid ck)"
  by (simp_all add: plain_def)

lemma quiet_execute: "always (quiet plain) (execute E q)"
  unfolding execute_def
  by (intro quiet_intros quiet_emit quiet_log quiet_driver_call quiet_reset) simp_all

lemma quiet_fetchall: "always (quiet plain) (fetchall E)"
  by (auto simp: always_def fetchall_def raiseE_def quiet_def split: option.splits prod.splits)

lemma quiet_uuid4: "always (quiet plain) (uuid4 E)"
  by (auto simp: always_def uuid4_def quiet_def Let_def split: prod.splits)

lemma quiet_close: "always (quiet plain) (close E)"
  unfolding close_def
  by (intro quiet_intros quiet_emit quiet_driver_call quiet_reset) simp_all

lemma quiet_get_max_value: "always (quiet plain) (get_max_value E schema table column)"
  unfolding get_max_value_def
  by (intro quiet_intros quiet_execute quiet_fetchall)

lemma quiet_get_table_metadata: "always (quiet plain) (get_table_metadata E sql table)"
  unfolding get_table_metadata_def
  by (intro quiet_intros quiet_execute quiet_fetchall)

lemma quiet_connect: "always (quiet plain) (connect E src)"
  by (auto simp: always_def connect_def raiseE_def quiet_def Let_def
      split: option.splits prod.splits sum.splits dberr.splits if_splits)

lemma quiet_read_open_cursor: "always (quiet plain) (read_open_cursor E schema table)"
  unfolding read_open_cursor_def
  by (intro quiet_intros quiet_connect quiet_get_table_metadata quiet_get_max_value quiet_execute
      quiet_modify_self) (simp_all add: has_conn_def)

lemma on_raise_raiseE: "reflp R \<Longrightarrow> on_raise R (raiseE e)"
  by (auto simp: on_raise_def raiseE_def dest: reflpD)

lemma on_raise_if: "on_raise R f \<Longrightarrow> on_raise R g \<Longrightarrow> on_raise R (if b then f else g)"
  by simp

lemma on_raise_case_option:
  "on_raise R f \<Longrightarrow> (\<And>x. on_raise R (g x)) \<Longrightarrow> on_raise R (case v of None \<Rightarrow> f | Some x \<Rightarrow> g x)"
  by (cases v) auto

lemma on_raise_case_prod:
  "(\<And>a b. on_raise R (f a b)) \<Longrightarrow> on_raise R (case v of (a, b) \<Rightarrow> f a b)"
  by (cases v) auto

lemma on_raise_modify_return: "on_raise R (bindE (modify_self f) (\<lambda>_. returnE x))"
  by (simp add: on_raise_def bindE_def modify_self_def returnE_def)

lemma on_raise_report_return: "reflp R \<Longrightarrow> on_raise R (bindE (report_state i r) (\<lambda>_. returnE x))"
  by (auto simp: on_raise_def bindE_def report_state_def emit_def raiseE_def returnE_def Let_def
      split: option.splits dest: reflpD)

lemma on_raise_read_fetch: "on_raise (quiet plain) (read_fetch E bs schema table)"
  unfolding read_fetch_def
  by (intro on_raise_bindE [OF transp_quiet] on_raise_if on_raise_modify_return
      on_raise_report_return [OF reflp_quiet] quiet_intros quiet_execute quiet_fetchall quiet_uuid4
      quiet_close quiet_modify_self)
    (simp_all add: has_conn_def)

lemma on_raise_read_once: "on_raise (quiet plain) (read_once E bs_arg)"
  unfolding read_once_def
  by (intro on_raise_bindE [OF transp_quiet] on_raise_if on_raise_case_option on_raise_case_prod
      on_raise_returnE on_raise_raiseE [OF reflp_quiet] on_raise_read_fetch
      quiet_intros quiet_emit quiet_read_open_cursor)
    simp_all

text \<open>The decorated \<open>read\<close>: its result is that of one attempt, made after quiet failures.\<close>

lemma quiet_retrying: "quiet plain m (m\<lparr>trace := trace m @ [Retrying n]\<rparr>)"
  by (simp add: quiet_def)

lemma backoff_Inr:
  assumes "on_raise (quiet plain) target"
  shows "backoff_on_exception further tries target m = (Inr r, m') \<Longrightarrow>
         \<exists>m0. quiet plain m m0 \<and> target m0 = (Inr r, m')"
proof (induction further arbitrary: tries m)
  case 0
  then show ?case
    using reflp_quiet [of plain] by (auto dest: reflpD)
next
  case (Suc further)
  obtain r1 m1 where t: "target m = (r1, m1)"
    by (cases "target m")
  show ?case
  proof (cases r1)
    case (Inr x)
    with Suc.prems t have "target m = (Inr r, m')"
      by simp
    then show ?thesis
      using reflp_quiet [of plain] by (auto dest: reflpD)
  next
    case (Inl e)
    with t assms have q1: "quiet plain m m1"
      by (auto dest: on_raiseD)
    from Inl Suc.prems t have db: "isinstance_DatabaseError e"
      by (auto split: if_splits)
    with Inl Suc.prems t have
      "backoff_on_exception further (Suc tries) target (m1\<lparr>trace := trace m1 @ [Retrying (Suc tries)]\<rparr>) = (Inr r, m')"
      by simp
    from Suc.IH [OF this] obtain m0 where
      m0: "quiet plain (m1\<lparr>trace := trace m1 @ [Retrying (Suc tries)]\<rparr>) m0" "target m0 = (Inr r, m')"
      by blast
    have "quiet plain m m0"
      using q1 quiet_retrying [of m1 "Suc tries"] m0(1) transp_quiet [of plain]
      by (blast dest: transpD)
    with m0(2) show ?thesis by blast
  qed
qed

lemma backoff_Inl:
  assumes "on_raise (quiet plain) target"
  shows "backoff_on_exception further tries target m = (Inl e, m') \<Longrightarrow> quiet plain m m'"
proof (induction further arbitrary: tries m)
  case 0
  then show ?case
    using assms by (auto dest: on_raiseD)
next
  case (Suc further)
  obtain r1 m1 where t: "target m = (r1, m1)"
    by (cases "target m")
  show ?case
  proof (cases r1)
    case (Inr x)
    with Suc.prems t show ?thesis by simp
  next
    case (Inl e1)
    with t assms have q1: "quiet plain m m1"
      by (auto dest: on_raiseD)
    show ?thesis
    proof (cases "isinstance_DatabaseError e1")
      case True
      with Inl Suc.prems t have
        "backoff_on_exception further (Suc tries) target (m1\<lparr>trace := trace m1 @ [Retrying (Suc tries)]\<rparr>) = (Inl e, m')"
        by simp
      from Suc.IH [OF this] have "quiet plain (m1\<lparr>trace := trace m1 @ [Retrying (Suc tries)]\<rparr>) m'" .
      then show ?thesis
        using q1 quiet_retrying [of m1 "Suc tries"] transp_quiet [of plain]
        by (blast dest: transpD)
    next
      case False
      with Inl Suc.prems t have "m' = m1" by simp
      with q1 show ?thesis by simp
    qed
  qed
qed

lemma read_Inr:
  "read E bs_arg m = (Inr r, m') \<Longrightarrow> \<exists>m0. quiet plain m m0 \<and> read_once E bs_arg m0 = (Inr r, m')"
  unfolding read_def by (rule backoff_Inr [OF on_raise_read_once])

lemma read_Inl: "read E bs_arg m = (Inl e, m') \<Longrightarrow> quiet plain m m'"
  unfolding read_def by (rule backoff_Inl [OF on_raise_read_once])

section \<open>What each method does when it returns\<close>

lemmas meth_defs = bindE_def gets_def log_def emit_def try_except_def driver_call_def
  raiseE_def returnE_def reset_def modify_self_def

lemma execute_no_cursor:
  "cursor (self m) = None \<Longrightarrow>
   execute E q m = (Inl AttributeError, m\<lparr>trace := trace m @ [Log q (''Loaded: '' @ str_nat (loaded (self m)))]\<rparr>)"
  by (simp add: execute_def meth_defs)

lemma execute_ok:
  "cursor (self m) = Some c \<Longrightarrow> cursor_execute E c q (world m) = (None, w') \<Longrightarrow>
   execute E q m =
     (Inr (), m\<lparr>world := w',
              trace := trace m @ [Log q (''Loaded: '' @ str_nat (loaded (self m))), Execute q, Log ''DONE'' q]\<rparr>)"
  by (simp add: execute_def meth_defs)

lemma execute_error:
  "cursor (self m) = Some c \<Longrightarrow> cursor_execute E c q (world m) = (Some d, w') \<Longrightarrow>
   execute E q m =
     (Inl (Psycopg2 d),
      if isinstance_DatabaseError (Psycopg2 d)
      then m\<lparr>self := (self m)\<lparr>loaded := 0, conn := None, cursor := None\<rparr>, world := w',
             trace := trace m @ [Log q (''Loaded: '' @ str_nat (loaded (self m))), Execute q,
                                 Print (''Raise error '' @ message d)]\<rparr>
      else m\<lparr>world := w',
             trace := trace m @ [Log q (''Loaded: '' @ str_nat (loaded (self m))), Execute q]\<rparr>)"
  by (simp add: execute_def meth_defs)

lemma execute_Inr:
  assumes "execute E q m = (Inr u, m')"
  shows "\<exists>c w'. cursor (self m) = Some c \<and> cursor_execute E c q (world m) = (None, w') \<and>
           self m' = self m \<and> world m' = w' \<and>
           trace m' = trace m @ [Log q (''Loaded: '' @ str_nat (loaded (self m))), Execute q, Log ''DONE'' q]"
proof (cases "cursor (self m)")
  case None
  with assms show ?thesis by (simp add: execute_no_cursor)
next
  case (Some c)
  obtain o' w' where ce: "cursor_execute E c q (world m) = (o', w')"
    by (cases "cursor_execute E c q (world m)")
  show ?thesis
  proof (cases o')
    case None
    with Some ce assms show ?thesis by (auto simp: execute_ok)
  next
    case (Some d)
    with \<open>cursor (self m) = Some c\<close> ce assms show ?thesis by (simp add: execute_error)
  qed
qed

lemma execute_Inl:
  assumes "execute E q m = (Inl e, m')"
  shows "(cursor (self m) = None \<and> e = AttributeError) \<or>
         (\<exists>c d w'. cursor (self m) = Some c \<and> cursor_execute E c q (world m) = (Some d, w') \<and>
            e = Psycopg2 d \<and> world m' = w' \<and>
            (if isinstance_DatabaseError e
             then self m' = (self m)\<lparr>loaded := 0, conn := None, cursor := None\<rparr> \<and>
                  trace m' = trace m @ [Log q (''Loaded: '' @ str_nat (loaded (self m))), Execute q,
                                        Print (''Raise error '' @ message d)]
             else self m' = self m \<and>
                  trace m' = trace m @ [Log q (''Loaded: '' @ str_nat (loaded (self m))), Execute q]))"
proof (cases "cursor (self m)")
  case None
  with assms show ?thesis by (simp add: execute_no_cursor)
next
  case (Some c)
  obtain o' w' where ce: "cursor_execute E c q (world m) = (o', w')"
    by (cases "cursor_execute E c q (world m)")
  show ?thesis
  proof (cases o')
    case None
    with Some ce assms show ?thesis by (simp add: execute_ok)
  next
    case (Some d)
    with \<open>cursor (self m) = Some c\<close> ce assms have
      "e = Psycopg2 d" and
      "m' = (if isinstance_DatabaseError (Psycopg2 d)
      then m\<lparr>self := (self m)\<lparr>loaded := 0, conn := None, cursor := None\<rparr>, world := w',
             trace := trace m @ [Log q (''Loaded: '' @ str_nat (loaded (self m))), Execute q,
                                 Print (''Raise error '' @ message d)]\<rparr>
      else m\<lparr>world := w',
             trace := trace m @ [Log q (''Loaded: '' @ str_nat (loaded (self m))), Execute q]\<rparr>)"
      by (auto simp: execute_error)
    with \<open>cursor (self m) = Some c\<close> ce Some show ?thesis
      by (cases "isinstance_DatabaseError (Psycopg2 d)") simp_all
  qed
qed

lemma fetchall_Inr:
  assumes "fetchall E m = (Inr rows, m')"
  shows "\<exists>c w'. cursor (self m) = Some c \<and> cursor_fetchall E c (world m) = (rows, w') \<and>
           self m' = self m \<and> world m' = w' \<and> trace m' = trace m @ [Fetchall rows]"
  using assms
  by (auto simp: fetchall_def raiseE_def split: option.splits prod.splits)

lemma uuid4_eq:
  "uuid4 E m = (r, m') \<Longrightarrow>
     \<exists>rnd w'. os_urandom E (world m) = (rnd, w') \<and> r = Inr (uuid_str (uuid4_int rnd)) \<and>
       self m' = self m \<and> world m' = w' \<and> trace m' = trace m @ [Uuid4 (uuid_str (uuid4_int rnd))]"
  by (auto simp: uuid4_def Let_def split: prod.splits)

lemma report_state_Inr:
  assumes "report_state i last_row m = (Inr u, m')"
  shows "\<exists>cks lv. current_keys (self m) = Some cks \<and>
           lv = OrderedDict (map (\<lambda>key. (key, row_get last_row key)) (map (\<lambda>x. dict_get x ''attname'') cks)) \<and>
           self m' = (self m)\<lparr>saved_state := \<lparr>last_index = Some i, last_value = Some lv\<rparr>\<rparr> \<and>
           world m' = world m \<and>
           trace m' = trace m @ [State (state_id (self m)) \<lparr>last_index = Some i, last_value = Some lv\<rparr>]"
  using assms
  by (auto simp: report_state_def emit_def raiseE_def Let_def split: option.splits)

lemma driver_call_Inr:
  "driver_call f m = (Inr u, m') \<Longrightarrow> self m' = self m \<and> trace m' = trace m"
  by (auto simp: driver_call_def split: prod.splits option.splits)

lemma close_Inr:
  assumes "close E m = (Inr u, m')"
  shows "self m' = (self m)\<lparr>loaded := 0, conn := None, cursor := None\<rparr> \<and>
         trace m' = trace m @ (if cursor (self m) = None then [] else [CursorClose]) @
                              (if conn (self m) = None then [] else [Rollback, ConnClose])"
proof -
  from assms obtain m1 m2 where
    a1: "(case cursor (self m) of
              None \<Rightarrow> returnE ()
            | Some c \<Rightarrow> bindE (emit CursorClose) (\<lambda>_. driver_call (cursor_close E c))) m = (Inr (), m1)" and
    a2: "(case conn (self m1) of
              None \<Rightarrow> returnE ()
            | Some c \<Rightarrow>
                bindE (emit Rollback) (\<lambda>_.
                bindE (driver_call (conn_rollback E c)) (\<lambda>_.
                bindE (emit ConnClose) (\<lambda>_.
                driver_call (conn_close E c))))) m1 = (Inr (), m2)" and
    a3: "reset m2 = (Inr u, m')"
    unfolding close_def by (auto simp: bindE_Inr_iff gets_def)
  have s1: "self m1 = self m \<and> trace m1 = trace m @ (if cursor (self m) = None then [] else [CursorClose])"
  proof (cases "cursor (self m)")
    case None
    with a1 show ?thesis by (simp add: returnE_def)
  next
    case (Some c)
    with a1 obtain m0 where "emit CursorClose m = (Inr (), m0)" "driver_call (cursor_close E c) m0 = (Inr (), m1)"
      by (auto simp: bindE_Inr_iff)
    with Some show ?thesis
      by (auto simp: emit_def dest!: driver_call_Inr)
  qed
  have s2: "self m2 = self m1 \<and> trace m2 = trace m1 @ (if conn (self m1) = None then [] else [Rollback, ConnClose])"
  proof (cases "conn (self m1)")
    case None
    with a2 show ?thesis by (simp add: returnE_def)
  next
    case (Some c)
    with a2 obtain x1 x2 x3 where
      "emit Rollback m1 = (Inr (), x1)" "driver_call (conn_rollback E c) x1 = (Inr (), x2)"
      "emit ConnClose x2 = (Inr (), x3)" "driver_call (conn_close E c) x3 = (Inr (), m2)"
      by (auto simp: bindE_Inr_iff)
    with Some show ?thesis
      by (auto simp: emit_def dest!: driver_call_Inr)
  qed
  from a3 have s3: "self m' = (self m2)\<lparr>loaded := 0, conn := None, cursor := None\<rparr> \<and> trace m' = trace m2"
    by (auto simp: reset_def modify_self_def)
  from s1 s2 s3 show ?thesis by simp
qed

lemma modify_self_eq: "modify_self f m = (r, m') \<longleftrightarrow> r = Inr () \<and> m' = m\<lparr>self := f (self m)\<rparr>"
  by (auto simp: modify_self_def)

lemma returnE_eq: "returnE x m = (r, m') \<longleftrightarrow> r = Inr x \<and> m' = m"
  by (auto simp: returnE_def)

lemma gets_eq: "gets f m = (r, m') \<longleftrightarrow> r = Inr (f m) \<and> m' = m"
  by (auto simp: gets_def)

lemma emit_eq: "emit ev m = (r, m') \<longleftrightarrow> r = Inr () \<and> m' = m\<lparr>trace := trace m @ [ev]\<rparr>"
  by (auto simp: emit_def)

lemma raiseE_Inr [simp]: "raiseE e m \<noteq> (Inr x, m')"
  by (simp add: raiseE_def)

text \<open>
  \<open>read_fetch\<close> when it returns: the statement ran, the cursor yielded \<open>rows\<close>, an
  identifier was generated, and the batch is the rows with the three tags. What follows
  depends on whether rows came.
\<close>

lemma read_fetch_Inr:
  assumes "read_fetch E bs schema table m = (Inr r, m')"
  shows "\<exists>rows sid.
      r = Some (map (\<lambda>x. x ++ internals table schema sid) rows) \<and>
      state_id (self m') = Some sid \<and> (\<exists>rnd. sid = uuid_str (uuid4_int rnd)) \<and>
      cursor (self m) \<noteq> None \<and>
      (if rows = []
       then trace m' = trace m @
              [Log (''FETCH FORWARD '' @ str_int bs @ '' FROM cur'') (''Loaded: '' @ str_nat (loaded (self m))),
               Execute (''FETCH FORWARD '' @ str_int bs @ '' FROM cur''),
               Log ''DONE'' (''FETCH FORWARD '' @ str_int bs @ '' FROM cur''),
               Fetchall rows, Uuid4 sid, CursorClose] @
              (if conn (self m) = None then [] else [Rollback, ConnClose]) \<and>
            self m' = (self m)\<lparr>state_id := Some sid, index := index (self m) + 1, loaded := 0,
                                 conn := None, cursor := None, current_keys := None,
                                 saved_state := \<lparr>last_index = None, last_value = None\<rparr>\<rparr>
       else (\<exists>cks lv. current_keys (self m) = Some cks \<and>
              lv = OrderedDict (map (\<lambda>key. (key, row_get (last rows ++ internals table schema sid) key))
                                  (map (\<lambda>x. dict_get x ''attname'') cks)) \<and>
              trace m' = trace m @
                [Log (''FETCH FORWARD '' @ str_int bs @ '' FROM cur'') (''Loaded: '' @ str_nat (loaded (self m))),
                 Execute (''FETCH FORWARD '' @ str_int bs @ '' FROM cur''),
                 Log ''DONE'' (''FETCH FORWARD '' @ str_int bs @ '' FROM cur''),
                 Fetchall rows, Uuid4 sid,
                 State (Some sid) \<lparr>last_index = Some (index (self m)), last_value = Some lv\<rparr>] \<and>
              self m' = (self m)\<lparr>state_id := Some sid, loaded := loaded (self m) + length rows,
                                   saved_state := \<lparr>last_index = Some (index (self m)), last_value = Some lv\<rparr>\<rparr>))"
proof -
  let ?q = "''FETCH FORWARD '' @ str_int bs @ '' FROM cur''"
  from assms obtain m1 rows m2 sid m3 where
    ex: "execute E ?q m = (Inr (), m1)" and
    fe: "fetchall E m1 = (Inr rows, m2)" and
    uu: "uuid4 E m2 = (Inr sid, m3)" and
    rest: "(if map (\<lambda>x. x ++ internals table schema sid) rows = [] then
       bindE (close E) (\<lambda>_.
       bindE (modify_self (\<lambda>s. s\<lparr>index := index s + 1, loaded := 0, current_keys := None,
                                   saved_state := \<lparr>last_index = None, last_value = None\<rparr>\<rparr>)) (\<lambda>_.
       returnE (Some (map (\<lambda>x. x ++ internals table schema sid) rows))))
     else
       bindE (gets (\<lambda>m. index (self m))) (\<lambda>i.
       bindE (report_state i (last (map (\<lambda>x. x ++ internals table schema sid) rows))) (\<lambda>_.
       returnE (Some (map (\<lambda>x. x ++ internals table schema sid) rows)))))
      (m3\<lparr>self := (self m3)\<lparr>state_id := Some sid\<rparr>\<rparr>
         \<lparr>self := (self m3)\<lparr>state_id := Some sid,
               loaded := loaded (self m3) + length rows\<rparr>\<rparr>) = (Inr r, m')"
    unfolding read_fetch_def
    by (auto simp: bindE_Inr_iff modify_self_eq returnE_eq)
  from execute_Inr [OF ex] obtain c where
    c: "cursor (self m) = Some c" and s1: "self m1 = self m" and
    t1: "trace m1 = trace m @ [Log ?q (''Loaded: '' @ str_nat (loaded (self m))), Execute ?q, Log ''DONE'' ?q]"
    by auto
  from fetchall_Inr [OF fe] have s2: "self m2 = self m1" and t2: "trace m2 = trace m1 @ [Fetchall rows]"
    by auto
  from uuid4_eq [OF uu] obtain rnd where
    sid: "sid = uuid_str (uuid4_int rnd)" and s3: "self m3 = self m2" and t3: "trace m3 = trace m2 @ [Uuid4 sid]"
    by auto
  show ?thesis
  proof (cases "rows = []")
    case True
    with rest obtain m4 where
      cl: "close E (m3\<lparr>self := (self m3)\<lparr>state_id := Some sid, loaded := loaded (self m3)\<rparr>\<rparr>) = (Inr (), m4)" and
      fin: "r = Some []" "m' = m4\<lparr>self := (self m4)\<lparr>index := index (self m4) + 1, loaded := 0, current_keys := None,
                                   saved_state := \<lparr>last_index = None, last_value = None\<rparr>\<rparr>\<rparr>"
      by (auto simp: bindE_Inr_iff modify_self_eq returnE_eq)
    from close_Inr [OF cl] s1 s2 s3 t1 t2 t3 c True fin sid show ?thesis
      by (intro exI [of _ rows] exI [of _ sid]) auto
  next
    case False
    with rest obtain u m4 where
      rp: "report_state (index (self m3)) (last (map (\<lambda>x. x ++ internals table schema sid) rows))
             (m3\<lparr>self := (self m3)\<lparr>state_id := Some sid, loaded := loaded (self m3) + length rows\<rparr>\<rparr>) = (Inr u, m4)" and
      fin: "r = Some (map (\<lambda>x. x ++ internals table schema sid) rows)" "m' = m4"
      by (auto simp: bindE_Inr_iff gets_eq returnE_eq)
    have lastmap: "last (map (\<lambda>x. x ++ internals table schema sid) rows) = last rows ++ internals table schema sid"
      using False by (simp add: last_map)
    from report_state_Inr [OF rp] s1 s2 s3 t1 t2 t3 c False fin sid lastmap show ?thesis
      by (intro exI [of _ rows] exI [of _ sid]) auto
  qed
qed

section \<open>Splitting strings\<close>

lemma split1_Some_iff: "split1 c s = Some (a, b) \<longleftrightarrow> s = a @ c # b \<and> c \<notin> set a"
proof (induction s arbitrary: a)
  case Nil
  then show ?case by simp
next
  case (Cons x xs)
  show ?case
  proof (cases "x = c")
    case True
    then show ?thesis by (cases a) auto
  next
    case False
    with Cons show ?thesis by (cases a) auto
  qed
qed

lemma split1_None_iff: "split1 c s = None \<longleftrightarrow> c \<notin> set s"
  by (induction s) auto

lemma rsplit1_Some_iff: "rsplit1 c s = Some (a, b) \<longleftrightarrow> s = a @ c # b \<and> c \<notin> set b"
proof -
  have "rsplit1 c s = Some (a, b) \<longleftrightarrow> split1 c (rev s) = Some (rev b, rev a)"
    by (auto simp: rsplit1_def)
  also have "\<dots> \<longleftrightarrow> rev s = rev b @ c # rev a \<and> c \<notin> set b"
    by (simp add: split1_Some_iff)
  also have "\<dots> \<longleftrightarrow> s = a @ c # b \<and> c \<notin> set b"
    by (metis rev_append rev.simps(2) rev_rev_ident append.assoc append_Cons append_Nil)
  finally show ?thesis .
qed

lemma rsplit1_None_iff: "rsplit1 c s = None \<longleftrightarrow> c \<notin> set s"
  by (simp add: rsplit1_def split1_None_iff)

lemma str_in_sublist: "str_in needle hay \<longleftrightarrow> sublist needle hay"
  by (induction hay) (auto simp: sublist_Cons_right)

section \<open>Opening the cursor\<close>

lemma connect_Inr:
  assumes "connect E src m = (Inr hs, m')"
  shows "\<exists>host port db w'.
           psycopg2_connect E host port (user src) (password src) db CONNECT_TIMEOUT (world m) = (Inr hs, w') \<and>
           self m' = self m \<and> world m' = w' \<and>
           trace m' = trace m @ [Connect host port (user src) (password src) db CONNECT_TIMEOUT]"
proof (cases "rsplit1 (CHR ''/'') (addr src)")
  case None
  with assms show ?thesis by (simp add: connect_def raiseE_def)
next
  case (Some hd)
  obtain host0 dbname where hd: "hd = (host0, dbname)"
    by (cases hd)
  let ?hp = "if CHR '':'' \<in> set host0
                 then (case rsplit1 (CHR '':'') host0 of
                         None \<Rightarrow> None
                       | Some (h, p) \<Rightarrow> map_option (\<lambda>n. (h, n)) (py_int p))
                 else Some (host0, 5432)"
  show ?thesis
  proof (cases ?hp)
    case None
    with Some hd assms show ?thesis by (simp add: connect_def raiseE_def)
  next
    case (Some hp)
    obtain host port where hp: "hp = (host, port)"
      by (cases hp)
    obtain res w' where pc:
      "psycopg2_connect E host port (user src) (password src) dbname CONNECT_TIMEOUT (world m) = (res, w')"
      by (cases "psycopg2_connect E host port (user src) (password src) dbname CONNECT_TIMEOUT (world m)")
    from \<open>rsplit1 (CHR ''/'') (addr src) = Some hd\<close> hd Some hp pc assms show ?thesis
      by (cases res) (auto simp: connect_def Let_def split: dberr.splits if_splits)
  qed
qed

lemma get_table_metadata_Inr:
  assumes "get_table_metadata E sql table m = (Inr rows, m')"
  shows "self m' = self m \<and>
         trace m' = trace m @ [Log (sql table) (''Loaded: '' @ str_nat (loaded (self m))), Execute (sql table),
                               Log ''DONE'' (sql table), Fetchall rows]"
proof -
  from assms obtain m1 where "execute E (sql table) m = (Inr (), m1)" "fetchall E m1 = (Inr rows, m')"
    by (auto simp: get_table_metadata_def bindE_Inr_iff)
  then show ?thesis
    by (auto dest!: execute_Inr fetchall_Inr)
qed

lemma get_max_value_Inr:
  assumes "get_max_value E schema table column m = (Inr v, m')"
  shows "self m' = self m \<and> (\<exists>evs. trace m' = trace m @ evs \<and> list_all plain evs) \<and>
         (column = [] \<longrightarrow> v = PNone \<and> m' = m)"
proof (cases "column = []")
  case True
  with assms show ?thesis by (simp add: get_max_value_def returnE_def)
next
  case False
  with assms obtain m1 rows m2 where
    \<open>execute E (''SELECT MAX("'' @ column @ ''") FROM "'' @ schema @ ''"."'' @ table @ ''"'') m = (Inr (), m1)\<close>
    "fetchall E m1 = (Inr rows, m2)"
    "(case rows of
            [] \<Rightarrow> raiseE IndexError
          | r # _ \<Rightarrow> (case r ''max'' of None \<Rightarrow> raiseE KeyError | Some v \<Rightarrow> returnE v)) m2 = (Inr v, m')"
    by (auto simp: get_max_value_def bindE_Inr_iff)
  then show ?thesis
    using False
    by (auto dest!: execute_Inr fetchall_Inr simp: returnE_def split: list.splits option.splits)
qed

text \<open>
  \<open>read_open_cursor\<close> when it returns: a connection was opened, the ordering key was
  resolved (\<open>key_strategy\<close> applied to the keys the engine held, or else to the keys or
  the first column the catalog gave), and the cursor was declared for the query that
  \<open>get_query\<close> builds from the saved state.
\<close>

lemma read_open_cursor_Inr:
  assumes "read_open_cursor E schema table m = (Inr u, m')"
  shows "\<exists>c k host port db pre ks maxv q.
      trace m' = trace m @
        Connect host port (user (source (self m))) (password (source (self m))) db CONNECT_TIMEOUT # pre @
        [Log (''DECLARE cur CURSOR FOR '' @ q) (''Loaded: '' @ str_nat (loaded (self m))),
         Execute (''DECLARE cur CURSOR FOR '' @ q),
         Log ''DONE'' (''DECLARE cur CURSOR FOR '' @ q)] \<and>
      list_all plain pre \<and>
      get_query schema table (inckey (self m)) (incval (self m)) ks maxv (last_value (saved_state (self m))) = Inr q \<and>
      (inckey (self m) = [] \<longrightarrow> maxv = PNone) \<and>
      (\<exists>raw. ks = key_strategy E raw \<and>
         (if no_keys (current_keys (self m))
          then (\<exists>krows. Fetchall krows \<in> set pre \<and>
                  (if krows \<noteq> [] then raw = krows
                   else (\<exists>crows. Fetchall crows \<in> set pre \<and> raw = take 1 crows)))
          else current_keys (self m) = Some raw)) \<and>
      self m' = (self m)\<lparr>conn := Some c, cursor := Some k, current_keys := Some ks\<rparr>"
proof -
  let ?s0 = "self m"
  from assms obtain hs m1 where
    co: "connect E (source ?s0) m = (Inr hs, m1)" and
    r1: "(case hs of (c, k) \<Rightarrow>
     bindE (modify_self (\<lambda>s. s\<lparr>conn := Some c, cursor := Some k\<rparr>)) (\<lambda>_.
     bindE (gets (\<lambda>m. last_value (saved_state (self m)))) (\<lambda>state.
     bindE (gets (\<lambda>m. current_keys (self m))) (\<lambda>ks0.
     bindE (if no_keys ks0
            then bindE (get_table_metadata E SQL_GET_KEYS table)
                   (\<lambda>rows. modify_self (\<lambda>s. s\<lparr>current_keys := Some rows\<rparr>))
            else returnE ()) (\<lambda>_.
     bindE (gets (\<lambda>m. current_keys (self m))) (\<lambda>ks1.
     bindE (if no_keys ks1
            then bindE (get_table_metadata E SQL_GET_COLUMNS table)
                   (\<lambda>rows. modify_self (\<lambda>s. s\<lparr>current_keys := Some (take 1 rows)\<rparr>))
            else returnE ()) (\<lambda>_.
     bindE (gets (\<lambda>m. current_keys (self m))) (\<lambda>ks2.
     bindE (case ks2 of
              None \<Rightarrow> raiseE TypeError
            | Some ks \<Rightarrow> modify_self (\<lambda>s. s\<lparr>current_keys := Some (key_strategy E ks)\<rparr>)) (\<lambda>_.
     bindE (gets (\<lambda>m. inckey (self m))) (\<lambda>ik.
     bindE (get_max_value E schema table ik) (\<lambda>max_value.
     bindE (gets self) (\<lambda>s.
     case get_query schema table (inckey s) (incval s)
            (case current_keys s of None \<Rightarrow> [] | Some ks \<Rightarrow> ks) max_value state of
       Inl e \<Rightarrow> raiseE e
     | Inr q \<Rightarrow> execute E (''DECLARE cur CURSOR FOR '' @ q))))))))))))) m1 = (Inr u, m')"
    unfolding read_open_cursor_def by (auto simp: bindE_Inr_iff gets_eq)
  obtain c k where hs: "hs = (c, k)"
    by (cases hs)
  from connect_Inr [OF co] obtain host port db where
    s1: "self m1 = ?s0" and
    t1: "trace m1 = trace m @ [Connect host port (user (source ?s0)) (password (source ?s0)) db CONNECT_TIMEOUT]"
    by auto
  define m2 where "m2 = m1\<lparr>self := (self m1)\<lparr>conn := Some c, cursor := Some k\<rparr>\<rparr>"
  have s2: "self m2 = ?s0\<lparr>conn := Some c, cursor := Some k\<rparr>" and t2: "trace m2 = trace m1"
    by (simp_all add: m2_def s1)
  let ?state = "last_value (saved_state ?s0)"
  from r1 hs obtain m3 where
    k1: "(if no_keys (current_keys (self m2))
            then bindE (get_table_metadata E SQL_GET_KEYS table)
                   (\<lambda>rows. modify_self (\<lambda>s. s\<lparr>current_keys := Some rows\<rparr>))
            else returnE ()) m2 = (Inr (), m3)" and
    r3: "bindE (gets (\<lambda>m. current_keys (self m))) (\<lambda>ks1.
     bindE (if no_keys ks1
            then bindE (get_table_metadata E SQL_GET_COLUMNS table)
                   (\<lambda>rows. modify_self (\<lambda>s. s\<lparr>current_keys := Some (take 1 rows)\<rparr>))
            else returnE ()) (\<lambda>_.
     bindE (gets (\<lambda>m. current_keys (self m))) (\<lambda>ks2.
     bindE (case ks2 of
              None \<Rightarrow> raiseE TypeError
            | Some ks \<Rightarrow> modify_self (\<lambda>s. s\<lparr>current_keys := Some (key_strategy E ks)\<rparr>)) (\<lambda>_.
     bindE (gets (\<lambda>m. inckey (self m))) (\<lambda>ik.
     bindE (get_max_value E schema table ik) (\<lambda>max_value.
     bindE (gets self) (\<lambda>s.
     case get_query schema table (inckey s) (incval s)
            (case current_keys s of None \<Rightarrow> [] | Some ks \<Rightarrow> ks) max_value ?state of
       Inl e \<Rightarrow> raiseE e
     | Inr q \<Rightarrow> execute E (''DECLARE cur CURSOR FOR '' @ q)))))))) m3 = (Inr u, m')"
    by (auto simp: bindE_Inr_iff gets_eq modify_self_eq m2_def s1)
  have nk2: "no_keys (current_keys (self m2)) = no_keys (current_keys ?s0)"
    by (simp add: s2)
  have st3: "\<exists>e3. trace m3 = trace m2 @ e3 \<and> list_all plain e3 \<and>
      (if no_keys (current_keys ?s0)
       then (\<exists>krows. e3 = [Log (SQL_GET_KEYS table) (''Loaded: '' @ str_nat (loaded ?s0)),
                               Execute (SQL_GET_KEYS table), Log ''DONE'' (SQL_GET_KEYS table), Fetchall krows] \<and>
               self m3 = (self m2)\<lparr>current_keys := Some krows\<rparr>)
       else e3 = [] \<and> self m3 = self m2)"
  proof (cases "no_keys (current_keys ?s0)")
    case True
    with k1 nk2 obtain rows mx where
      "get_table_metadata E SQL_GET_KEYS table m2 = (Inr rows, mx)"
      "m3 = mx\<lparr>self := (self mx)\<lparr>current_keys := Some rows\<rparr>\<rparr>"
      by (auto simp: bindE_Inr_iff modify_self_eq)
    with True s2 show ?thesis
      by (auto dest!: get_table_metadata_Inr)
  next
    case False
    with k1 nk2 show ?thesis by (simp add: returnE_eq)
  qed
  then obtain e3 where
    t3: "trace m3 = trace m2 @ e3" and p3: "list_all plain e3" and
    c3: "if no_keys (current_keys ?s0)
       then (\<exists>krows. e3 = [Log (SQL_GET_KEYS table) (''Loaded: '' @ str_nat (loaded ?s0)),
                               Execute (SQL_GET_KEYS table), Log ''DONE'' (SQL_GET_KEYS table), Fetchall krows] \<and>
               self m3 = (self m2)\<lparr>current_keys := Some krows\<rparr>)
       else e3 = [] \<and> self m3 = self m2"
    by blast
  from r3 obtain m4 where
    k2: "(if no_keys (current_keys (self m3))
            then bindE (get_table_metadata E SQL_GET_COLUMNS table)
                   (\<lambda>rows. modify_self (\<lambda>s. s\<lparr>current_keys := Some (take 1 rows)\<rparr>))
            else returnE ()) m3 = (Inr (), m4)" and
    r4: "bindE (gets (\<lambda>m. current_keys (self m))) (\<lambda>ks2.
     bindE (case ks2 of
              None \<Rightarrow> raiseE TypeError
            | Some ks \<Rightarrow> modify_self (\<lambda>s. s\<lparr>current_keys := Some (key_strategy E ks)\<rparr>)) (\<lambda>_.
     bindE (gets (\<lambda>m. inckey (self m))) (\<lambda>ik.
     bindE (get_max_value E schema table ik) (\<lambda>max_value.
     bindE (gets self) (\<lambda>s.
     case get_query schema table (inckey s) (incval s)
            (case current_keys s of None \<Rightarrow> [] | Some ks \<Rightarrow> ks) max_value ?state of
       Inl e \<Rightarrow> raiseE e
     | Inr q \<Rightarrow> execute E (''DECLARE cur CURSOR FOR '' @ q)))))) m4 = (Inr u, m')"
    by (auto simp: bindE_Inr_iff gets_eq)
  have st4: "\<exists>e4. trace m4 = trace m3 @ e4 \<and> list_all plain e4 \<and>
      (if no_keys (current_keys (self m3))
       then (\<exists>crows. Fetchall crows \<in> set e4 \<and> self m4 = (self m3)\<lparr>current_keys := Some (take 1 crows)\<rparr>)
       else e4 = [] \<and> self m4 = self m3)"
  proof (cases "no_keys (current_keys (self m3))")
    case True
    with k2 obtain rows mx where
      "get_table_metadata E SQL_GET_COLUMNS table m3 = (Inr rows, mx)"
      "m4 = mx\<lparr>self := (self mx)\<lparr>current_keys := Some (take 1 rows)\<rparr>\<rparr>"
      by (auto simp: bindE_Inr_iff modify_self_eq)
    with True show ?thesis
      by (auto dest!: get_table_metadata_Inr)
  next
    case False
    with k2 show ?thesis by (simp add: returnE_eq)
  qed
  then obtain e4 where
    t4: "trace m4 = trace m3 @ e4" and p4: "list_all plain e4" and
    c4: "if no_keys (current_keys (self m3))
       then (\<exists>crows. Fetchall crows \<in> set e4 \<and> self m4 = (self m3)\<lparr>current_keys := Some (take 1 crows)\<rparr>)
       else e4 = [] \<and> self m4 = self m3"
    by blast
  from r4 obtain raw where
    raw: "current_keys (self m4) = Some raw" and
    r5: "bindE (gets (\<lambda>m. inckey (self m))) (\<lambda>ik.
     bindE (get_max_value E schema table ik) (\<lambda>max_value.
     bindE (gets self) (\<lambda>s.
     case get_query schema table (inckey s) (incval s)
            (case current_keys s of None \<Rightarrow> [] | Some ks \<Rightarrow> ks) max_value ?state of
       Inl e \<Rightarrow> raiseE e
     | Inr q \<Rightarrow> execute E (''DECLARE cur CURSOR FOR '' @ q))))
      (m4\<lparr>self := (self m4)\<lparr>current_keys := Some (key_strategy E raw)\<rparr>\<rparr>) = (Inr u, m')"
    by (cases "current_keys (self m4)") (auto simp: bindE_Inr_iff gets_eq modify_self_eq)
  define m5 where "m5 = m4\<lparr>self := (self m4)\<lparr>current_keys := Some (key_strategy E raw)\<rparr>\<rparr>"
  have s5: "self m5 = (self m4)\<lparr>current_keys := Some (key_strategy E raw)\<rparr>" and t5: "trace m5 = trace m4"
    by (simp_all add: m5_def)
  from r5 obtain maxv m6 where
    mv: "get_max_value E schema table (inckey (self m5)) m5 = (Inr maxv, m6)" and
    r6: "(case get_query schema table (inckey (self m6)) (incval (self m6))
            (case current_keys (self m6) of None \<Rightarrow> [] | Some ks \<Rightarrow> ks) maxv ?state of
       Inl e \<Rightarrow> raiseE e
     | Inr q \<Rightarrow> execute E (''DECLARE cur CURSOR FOR '' @ q)) m6 = (Inr u, m')"
    unfolding m5_def [symmetric] by (auto simp: bindE_Inr_iff gets_eq)
  from get_max_value_Inr [OF mv] obtain e6 where
    s6: "self m6 = self m5" and t6: "trace m6 = trace m5 @ e6" and p6: "list_all plain e6" and
    mx: "inckey (self m5) = [] \<longrightarrow> maxv = PNone"
    by auto
  have self4: "self m4 = ?s0\<lparr>conn := Some c, cursor := Some k, current_keys := Some raw\<rparr>"
    using c3 c4 s2 raw
    by (auto split: if_splits simp: no_keys_def)
  have self6: "self m6 = ?s0\<lparr>conn := Some c, cursor := Some k, current_keys := Some (key_strategy E raw)\<rparr>"
    using s6 s5 self4 by simp
  from r6 self6 obtain q where
    q: "get_query schema table (inckey ?s0) (incval ?s0) (key_strategy E raw) maxv ?state = Inr q" and
    ex: "execute E (''DECLARE cur CURSOR FOR '' @ q) m6 = (Inr u, m')"
    by (auto split: sum.splits)
  from execute_Inr [OF ex] have
    s7: "self m' = self m6" and
    t7: "trace m' = trace m6 @ [Log (''DECLARE cur CURSOR FOR '' @ q) (''Loaded: '' @ str_nat (loaded (self m6))),
                                Execute (''DECLARE cur CURSOR FOR '' @ q),
                                Log ''DONE'' (''DECLARE cur CURSOR FOR '' @ q)]"
    by auto
  have tr: "trace m' = trace m @
        Connect host port (user (source ?s0)) (password (source ?s0)) db CONNECT_TIMEOUT # (e3 @ e4 @ e6) @
        [Log (''DECLARE cur CURSOR FOR '' @ q) (''Loaded: '' @ str_nat (loaded ?s0)),
         Execute (''DECLARE cur CURSOR FOR '' @ q),
         Log ''DONE'' (''DECLARE cur CURSOR FOR '' @ q)]"
    using t7 t6 t5 t4 t3 t2 t1 self6 by simp
  have pl: "list_all plain (e3 @ e4 @ e6)"
    using p3 p4 p6 by simp
  have mx0: "inckey ?s0 = [] \<longrightarrow> maxv = PNone"
    using mx s5 self4 by simp
  have res: "if no_keys (current_keys ?s0)
          then (\<exists>krows. Fetchall krows \<in> set (e3 @ e4 @ e6) \<and>
                  (if krows \<noteq> [] then raw = krows
                   else (\<exists>crows. Fetchall crows \<in> set (e3 @ e4 @ e6) \<and> raw = take 1 crows)))
          else current_keys ?s0 = Some raw"
  proof (cases "no_keys (current_keys ?s0)")
    case True
    with c3 obtain krows where
      e3: "Fetchall krows \<in> set e3" and s3: "self m3 = (self m2)\<lparr>current_keys := Some krows\<rparr>"
      by auto
    show ?thesis
    proof (cases "krows = []")
      case True
      with s3 c4 obtain crows where "Fetchall crows \<in> set e4" "self m4 = (self m3)\<lparr>current_keys := Some (take 1 crows)\<rparr>"
        by (auto simp: no_keys_def)
      with raw e3 True \<open>no_keys (current_keys ?s0)\<close> show ?thesis
        by auto
    next
      case False
      with s3 c4 have "self m4 = self m3"
        by (auto simp: no_keys_def)
      with raw s3 e3 False \<open>no_keys (current_keys ?s0)\<close> show ?thesis
        by auto
    qed
  next
    case False
    with c3 have "self m3 = self m2" by simp
    with False c4 s2 have "self m4 = self m2" by simp
    with raw s2 False show ?thesis by simp
  qed
  show ?thesis
    apply (rule exI [of _ c], rule exI [of _ k], rule exI [of _ host], rule exI [of _ port], rule exI [of _ db])
    apply (rule exI [of _ "e3 @ e4 @ e6"], rule exI [of _ "key_strategy E raw"], rule exI [of _ maxv], rule exI [of _ q])
    apply (intro conjI)
         apply (rule tr)
        apply (rule pl)
       apply (rule q)
      apply (rule mx0)
     apply (rule exI [of _ raw])
     apply (rule conjI [OF refl res])
    using s7 self6 apply simp
    done
qed

section \<open>One attempt of \<open>read\<close>, when it returns\<close>

lemma read_once_done:
  "length (tables (self m)) \<le> index (self m) \<Longrightarrow> read_once E bs_arg m = (Inr None, m)"
  by (simp add: read_once_def bindE_def gets_def returnE_def)

lemma read_once_Inr:
  assumes "read_once E bs_arg m = (Inr r, m')" and "index (self m) < length (tables (self m))"
  shows "\<exists>schema table m1.
      split1 (CHR ''.'') (t_value (tables (self m) ! index (self m))) = Some (schema, table) \<and>
      (if cursor (self m) = None
       then read_open_cursor E schema table
              (m\<lparr>trace := trace m @
                   [Progress (index (self m) + 1) (length (tables (self m)))
                      (''Reading table '' @ str_nat (index (self m) + 1) @ '' ('' @ table @ '') out of '' @
                       str_nat (length (tables (self m))))]\<rparr>) = (Inr (), m1)
       else m1 = m\<lparr>trace := trace m @
                   [Progress (index (self m) + 1) (length (tables (self m)))
                      (''Reading table '' @ str_nat (index (self m) + 1) @ '' ('' @ table @ '') out of '' @
                       str_nat (length (tables (self m))))]\<rparr>) \<and>
      read_fetch E (case bs_arg of None \<Rightarrow> batch_size (self m)
                    | Some b \<Rightarrow> if b = 0 then batch_size (self m) else b) schema table m1 = (Inr r, m')"
proof (cases "split1 (CHR ''.'') (t_value (tables (self m) ! index (self m)))")
  case None
  with assms show ?thesis
    by (simp add: read_once_def bindE_def gets_def raiseE_def)
next
  case (Some st)
  obtain schema table where st: "st = (schema, table)"
    by (cases st)
  let ?m0 = "m\<lparr>trace := trace m @
                   [Progress (index (self m) + 1) (length (tables (self m)))
                      (''Reading table '' @ str_nat (index (self m) + 1) @ '' ('' @ table @ '') out of '' @
                       str_nat (length (tables (self m))))]\<rparr>"
  from assms Some st obtain m1 where
    a: "(if cursor (self ?m0) = None then read_open_cursor E schema table else returnE ()) ?m0 = (Inr (), m1)" and
    b: "read_fetch E (case bs_arg of None \<Rightarrow> batch_size (self m)
                    | Some b \<Rightarrow> if b = 0 then batch_size (self m) else b) schema table m1 = (Inr r, m')"
    unfolding read_once_def
    by (auto simp: bindE_Inr_iff gets_eq emit_eq)
  from a have "if cursor (self m) = None then read_open_cursor E schema table ?m0 = (Inr (), m1) else m1 = ?m0"
    by (auto simp: returnE_eq split: if_splits)
  with Some st b show ?thesis
    by auto
qed

lemma read_once_None_iff:
  "(\<exists>m'. read_once E bs_arg m = (Inr None, m')) \<longleftrightarrow> length (tables (self m)) \<le> index (self m)"
proof
  assume "\<exists>m'. read_once E bs_arg m = (Inr None, m')"
  then obtain m' where r: "read_once E bs_arg m = (Inr None, m')"
    by blast
  show "length (tables (self m)) \<le> index (self m)"
  proof (rule ccontr)
    assume "\<not> length (tables (self m)) \<le> index (self m)"
    then have "index (self m) < length (tables (self m))"
      by simp
    from read_once_Inr [OF r this] obtain bs schema table m1 where
      "read_fetch E bs schema table m1 = (Inr None, m')"
      by blast
    from read_fetch_Inr [OF this] show False
      by auto
  qed
next
  assume "length (tables (self m)) \<le> index (self m)"
  then show "\<exists>m'. read_once E bs_arg m = (Inr None, m')"
    using read_once_done by blast
qed

text \<open>
  The whole attempt. \<open>pre\<close> holds the events up to and including the FETCH statement;
  then the rows are fetched and the identifier is generated; then either the handles are
  closed (no rows) or the checkpoint is reported (rows).
\<close>

lemma read_once_Some:
  assumes "read_once E bs_arg m = (Inr (Some batch), m')"
  shows "\<exists>schema table rows sid rnd pre.
      index (self m) < length (tables (self m)) \<and>
      split1 (CHR ''.'') (t_value (tables (self m) ! index (self m))) = Some (schema, table) \<and>
      batch = map (\<lambda>x. x ++ internals table schema sid) rows \<and>
      sid = uuid_str (uuid4_int rnd) \<and> state_id (self m') = Some sid \<and>
      list_all plain pre \<and>
      source (self m') = source (self m) \<and> tables (self m') = tables (self m) \<and>
      batch_size (self m') = batch_size (self m) \<and>
      inckey (self m') = inckey (self m) \<and> incval (self m') = incval (self m) \<and>
      (if rows = []
       then trace m' = trace m @ pre @ [Fetchall rows, Uuid4 sid, CursorClose] @
              (if cursor (self m) \<noteq> None \<and> conn (self m) = None then [] else [Rollback, ConnClose]) \<and>
            index (self m') = index (self m) + 1 \<and> loaded (self m') = 0 \<and>
            conn (self m') = None \<and> cursor (self m') = None \<and> current_keys (self m') = None \<and>
            saved_state (self m') = \<lparr>last_index = None, last_value = None\<rparr>
       else (\<exists>cks lv.
              current_keys (self m') = Some cks \<and>
              lv = OrderedDict (map (\<lambda>key. (key, row_get (last batch) key))
                                  (map (\<lambda>x. dict_get x ''attname'') cks)) \<and>
              trace m' = trace m @ pre @
                [Fetchall rows, Uuid4 sid,
                 State (Some sid) \<lparr>last_index = Some (index (self m)), last_value = Some lv\<rparr>] \<and>
              saved_state (self m') = \<lparr>last_index = Some (index (self m)), last_value = Some lv\<rparr> \<and>
              index (self m') = index (self m) \<and> cursor (self m') \<noteq> None \<and>
              (has_conn (self m) \<longrightarrow> has_conn (self m'))))"
proof -
  have lt: "index (self m) < length (tables (self m))"
  proof (rule ccontr)
    assume "\<not> index (self m) < length (tables (self m))"
    then have "read_once E bs_arg m = (Inr None, m)"
      by (simp add: read_once_done)
    with assms show False by simp
  qed
  let ?bs = "case bs_arg of None \<Rightarrow> batch_size (self m) | Some b \<Rightarrow> if b = 0 then batch_size (self m) else b"
  from read_once_Inr [OF assms lt] obtain schema table m1 where
    sp: "split1 (CHR ''.'') (t_value (tables (self m) ! index (self m))) = Some (schema, table)" and
    op: "if cursor (self m) = None
       then read_open_cursor E schema table
              (m\<lparr>trace := trace m @
                   [Progress (index (self m) + 1) (length (tables (self m)))
                      (''Reading table '' @ str_nat (index (self m) + 1) @ '' ('' @ table @ '') out of '' @
                       str_nat (length (tables (self m))))]\<rparr>) = (Inr (), m1)
       else m1 = m\<lparr>trace := trace m @
                   [Progress (index (self m) + 1) (length (tables (self m)))
                      (''Reading table '' @ str_nat (index (self m) + 1) @ '' ('' @ table @ '') out of '' @
                       str_nat (length (tables (self m))))]\<rparr>" and
    rf: "read_fetch E ?bs schema table m1 = (Inr (Some batch), m')"
    by blast
  let ?P = "Progress (index (self m) + 1) (length (tables (self m)))
                      (''Reading table '' @ str_nat (index (self m) + 1) @ '' ('' @ table @ '') out of '' @
                       str_nat (length (tables (self m))))"
  have m1: "\<exists>e1. trace m1 = trace m @ ?P # e1 \<and> list_all plain e1 \<and>
      (if cursor (self m) = None
       then (\<exists>c k ks. self m1 = (self m)\<lparr>conn := Some c, cursor := Some k, current_keys := Some ks\<rparr>)
       else self m1 = self m)"
  proof (cases "cursor (self m) = None")
    case True
    with op have "read_open_cursor E schema table (m\<lparr>trace := trace m @ [?P]\<rparr>) = (Inr (), m1)"
      by simp
    from read_open_cursor_Inr [OF this] obtain c k host port db pre ks q where
      t: "trace m1 = (trace m @ [?P]) @
        Connect host port (user (source (self m))) (password (source (self m))) db CONNECT_TIMEOUT # pre @
        [Log (''DECLARE cur CURSOR FOR '' @ q) (''Loaded: '' @ str_nat (loaded (self m))),
         Execute (''DECLARE cur CURSOR FOR '' @ q),
         Log ''DONE'' (''DECLARE cur CURSOR FOR '' @ q)]" and
      p: "list_all plain pre" and
      s: "self m1 = (self m)\<lparr>conn := Some c, cursor := Some k, current_keys := Some ks\<rparr>"
      by auto
    show ?thesis
      apply (rule exI [of _ "Connect host port (user (source (self m))) (password (source (self m))) db CONNECT_TIMEOUT # pre @
        [Log (''DECLARE cur CURSOR FOR '' @ q) (''Loaded: '' @ str_nat (loaded (self m))),
         Execute (''DECLARE cur CURSOR FOR '' @ q),
         Log ''DONE'' (''DECLARE cur CURSOR FOR '' @ q)]"])
      using t p s True by auto
  next
    case False
    with op show ?thesis
      by (intro exI [of _ "[]"]) auto
  qed
  then obtain e1 where
    t1: "trace m1 = trace m @ ?P # e1" and p1: "list_all plain e1" and
    s1: "if cursor (self m) = None
       then (\<exists>c k ks. self m1 = (self m)\<lparr>conn := Some c, cursor := Some k, current_keys := Some ks\<rparr>)
       else self m1 = self m"
    by blast
  let ?q = "''FETCH FORWARD '' @ str_int ?bs @ '' FROM cur''"
  let ?pre = "?P # e1 @ [Log ?q (''Loaded: '' @ str_nat (loaded (self m1))), Execute ?q, Log ''DONE'' ?q]"
  from read_fetch_Inr [OF rf] obtain rows sid rnd where
    b: "batch = map (\<lambda>x. x ++ internals table schema sid) rows" and
    sid: "sid = uuid_str (uuid4_int rnd)" "state_id (self m') = Some sid" and
    cu: "cursor (self m1) \<noteq> None" and
    br: "if rows = []
       then trace m' = trace m1 @
              [Log ?q (''Loaded: '' @ str_nat (loaded (self m1))), Execute ?q, Log ''DONE'' ?q,
               Fetchall rows, Uuid4 sid, CursorClose] @
              (if conn (self m1) = None then [] else [Rollback, ConnClose]) \<and>
            self m' = (self m1)\<lparr>state_id := Some sid, index := index (self m1) + 1, loaded := 0,
                                 conn := None, cursor := None, current_keys := None,
                                 saved_state := \<lparr>last_index = None, last_value = None\<rparr>\<rparr>
       else (\<exists>cks lv. current_keys (self m1) = Some cks \<and>
              lv = OrderedDict (map (\<lambda>key. (key, row_get (last rows ++ internals table schema sid) key))
                                  (map (\<lambda>x. dict_get x ''attname'') cks)) \<and>
              trace m' = trace m1 @
                [Log ?q (''Loaded: '' @ str_nat (loaded (self m1))), Execute ?q, Log ''DONE'' ?q,
                 Fetchall rows, Uuid4 sid,
                 State (Some sid) \<lparr>last_index = Some (index (self m1)), last_value = Some lv\<rparr>] \<and>
              self m' = (self m1)\<lparr>state_id := Some sid, loaded := loaded (self m1) + length rows,
                                   saved_state := \<lparr>last_index = Some (index (self m1)), last_value = Some lv\<rparr>\<rparr>)"
    by auto
  have idx1: "index (self m1) = index (self m)" "source (self m1) = source (self m)"
    "tables (self m1) = tables (self m)" "batch_size (self m1) = batch_size (self m)"
    "inckey (self m1) = inckey (self m)" "incval (self m1) = incval (self m)"
    "saved_state (self m1) = saved_state (self m)"
    using s1 by (auto split: if_splits)
  have conn1: "conn (self m1) = None \<longleftrightarrow> cursor (self m) \<noteq> None \<and> conn (self m) = None"
    using s1 by (auto split: if_splits)
  have hc1: "has_conn (self m) \<longrightarrow> has_conn (self m1)"
    using s1 by (auto split: if_splits simp: has_conn_def)
  have ppre: "list_all plain ?pre"
    using p1 by simp
  show ?thesis
  proof (cases "rows = []")
    case True
    with br have
      t: "trace m' = trace m1 @
              [Log ?q (''Loaded: '' @ str_nat (loaded (self m1))), Execute ?q, Log ''DONE'' ?q,
               Fetchall rows, Uuid4 sid, CursorClose] @
              (if conn (self m1) = None then [] else [Rollback, ConnClose])" and
      s: "self m' = (self m1)\<lparr>state_id := Some sid, index := index (self m1) + 1, loaded := 0,
                                 conn := None, cursor := None, current_keys := None,
                                 saved_state := \<lparr>last_index = None, last_value = None\<rparr>\<rparr>"
      by simp_all
    have t': "trace m' = trace m @ ?pre @ [Fetchall rows, Uuid4 sid, CursorClose] @
              (if cursor (self m) \<noteq> None \<and> conn (self m) = None then [] else [Rollback, ConnClose])"
      using t t1 conn1 by simp
    show ?thesis
      apply (rule exI [of _ schema], rule exI [of _ table], rule exI [of _ rows], rule exI [of _ sid])
      apply (rule exI [of _ rnd], rule exI [of _ ?pre])
      using lt sp b sid ppre idx1 s t' True by simp
  next
    case False
    with br obtain cks lv where
      ck: "current_keys (self m1) = Some cks" and
      lv: "lv = OrderedDict (map (\<lambda>key. (key, row_get (last rows ++ internals table schema sid) key))
                                  (map (\<lambda>x. dict_get x ''attname'') cks))" and
      t: "trace m' = trace m1 @
                [Log ?q (''Loaded: '' @ str_nat (loaded (self m1))), Execute ?q, Log ''DONE'' ?q,
                 Fetchall rows, Uuid4 sid,
                 State (Some sid) \<lparr>last_index = Some (index (self m1)), last_value = Some lv\<rparr>]" and
      s: "self m' = (self m1)\<lparr>state_id := Some sid, loaded := loaded (self m1) + length rows,
                                   saved_state := \<lparr>last_index = Some (index (self m1)), last_value = Some lv\<rparr>\<rparr>"
      by auto
    have lb: "last batch = last rows ++ internals table schema sid"
      using False b by (simp add: last_map)
    have t': "trace m' = trace m @ ?pre @
                [Fetchall rows, Uuid4 sid,
                 State (Some sid) \<lparr>last_index = Some (index (self m)), last_value = Some lv\<rparr>]"
      using t t1 idx1 by simp
    have hc: "has_conn (self m) \<longrightarrow> has_conn (self m')"
      using hc1 s by (simp add: has_conn_def)
    show ?thesis
      apply (rule exI [of _ schema], rule exI [of _ table], rule exI [of _ rows], rule exI [of _ sid])
      apply (rule exI [of _ rnd], rule exI [of _ ?pre])
      using lt sp b sid ppre idx1 s t' False ck lv lb cu hc by simp
  qed
qed

section \<open>Ordered dictionaries\<close>

lemma od_set_keys: "fst ` set (od_set k v d) = insert k (fst ` set d)"
proof (induction d)
  case Nil
  then show ?case by simp
next
  case (Cons a d)
  obtain k' v' where a: "a = (k', v')"
    by (cases a)
  show ?case
    by (cases "k' = k") (simp_all add: a Cons.IH insert_commute)
qed

lemma od_set_distinct: "distinct (map fst d) \<Longrightarrow> distinct (map fst (od_set k v d))"
proof (induction d)
  case Nil
  then show ?case by simp
next
  case (Cons a d)
  then show ?case
    using od_set_keys [of k v d] by (cases a) auto
qed

lemma od_set_fresh: "k \<notin> fst ` set d \<Longrightarrow> od_set k v d = d @ [(k, v)]"
  by (induction d) auto

lemma od_set_values:
  "\<forall>(k', v') \<in> set d. v' = f k' \<Longrightarrow> v = f k \<Longrightarrow> \<forall>(k', v') \<in> set (od_set k v d). v' = f k'"
  by (induction d) (auto split: if_splits)

lemma foldl_od_set:
  "distinct (map fst d) \<Longrightarrow> \<forall>(k', v') \<in> set d. v' = f k' \<Longrightarrow>
   distinct (map fst (foldl (\<lambda>d (k, v). od_set k v d) d (map (\<lambda>k. (k, f k)) ks))) \<and>
   set (map fst (foldl (\<lambda>d (k, v). od_set k v d) d (map (\<lambda>k. (k, f k)) ks))) = set (map fst d) \<union> set ks \<and>
   (\<forall>(k', v') \<in> set (foldl (\<lambda>d (k, v). od_set k v d) d (map (\<lambda>k. (k, f k)) ks)). v' = f k')"
proof (induction ks arbitrary: d)
  case Nil
  then show ?case by simp
next
  case (Cons k ks)
  have 1: "distinct (map fst (od_set k (f k) d))"
    using Cons.prems(1) by (rule od_set_distinct)
  have 2: "\<forall>(k', v') \<in> set (od_set k (f k) d). v' = f k'"
    using Cons.prems(2) by (rule od_set_values) simp
  from Cons.IH [OF 1 2] show ?case
    by (simp add: od_set_keys)
qed

lemma foldl_od_set_distinct:
  "distinct (map fst d @ ks) \<Longrightarrow>
   foldl (\<lambda>d (k, v). od_set k v d) d (map (\<lambda>k. (k, f k)) ks) = d @ map (\<lambda>k. (k, f k)) ks"
proof (induction ks arbitrary: d)
  case Nil
  then show ?case by simp
next
  case (Cons k ks)
  then have fresh: "k \<notin> fst ` set d"
    by auto
  have "distinct (map fst (d @ [(k, f k)]) @ ks)"
    using Cons.prems by auto
  from Cons.IH [OF this] show ?case
    by (simp add: od_set_fresh [OF fresh])
qed

lemma OrderedDict_of_keys:
  "distinct (map fst (OrderedDict (map (\<lambda>k. (k, f k)) ks))) \<and>
   set (map fst (OrderedDict (map (\<lambda>k. (k, f k)) ks))) = set ks \<and>
   (\<forall>(k', v') \<in> set (OrderedDict (map (\<lambda>k. (k, f k)) ks)). v' = f k') \<and>
   (distinct ks \<longrightarrow> OrderedDict (map (\<lambda>k. (k, f k)) ks) = map (\<lambda>k. (k, f k)) ks)"
  unfolding OrderedDict_def
  using foldl_od_set [of "[]" f ks] foldl_od_set_distinct [of "[]" ks f]
  by simp

lemma OrderedDict_Nil_iff: "OrderedDict (map (\<lambda>k. (k, f k)) ks) = [] \<longleftrightarrow> ks = []"
proof -
  have "set (map fst (OrderedDict (map (\<lambda>k. (k, f k)) ks))) = set ks"
    using OrderedDict_of_keys [of f ks] by blast
  then show ?thesis
    by (cases "OrderedDict (map (\<lambda>k. (k, f k)) ks)"; cases ks) auto
qed

section \<open>The decorated \<open>read\<close>, when it returns\<close>

lemma plain_iff: "list_all plain evs \<longleftrightarrow> (\<forall>sid ck. State sid ck \<notin> set evs)"
proof (induction evs)
  case Nil
  then show ?case by simp
next
  case (Cons e evs)
  then show ?case by (cases e) auto
qed

lemma read_done:
  "length (tables (self m)) \<le> index (self m) \<Longrightarrow> read E bs_arg m = (Inr None, m)"
  by (simp add: read_def MAX_RETRIES_def eval_nat_numeral read_once_done)

lemma read_None_iff:
  "(\<exists>m'. read E bs_arg m = (Inr None, m')) \<longleftrightarrow> length (tables (self m)) \<le> index (self m)"
proof
  assume "\<exists>m'. read E bs_arg m = (Inr None, m')"
  then obtain m' where "read E bs_arg m = (Inr None, m')"
    by blast
  from read_Inr [OF this] obtain m0 where q: "quiet plain m m0" and r: "read_once E bs_arg m0 = (Inr None, m')"
    by blast
  from r have "length (tables (self m0)) \<le> index (self m0)"
    using read_once_None_iff by blast
  with q show "length (tables (self m)) \<le> index (self m)"
    by (simp add: quiet_def)
next
  assume "length (tables (self m)) \<le> index (self m)"
  then show "\<exists>m'. read E bs_arg m = (Inr None, m')"
    using read_done by blast
qed

text \<open>
  The summary of a call of \<open>read\<close> that returns a batch, in terms of the machine the
  call started from.
\<close>

lemma read_Some:
  assumes "read E bs_arg m = (Inr (Some batch), m')"
  shows "\<exists>schema table rows sid rnd pre.
      index (self m) < length (tables (self m)) \<and>
      split1 (CHR ''.'') (t_value (tables (self m) ! index (self m))) = Some (schema, table) \<and>
      batch = map (\<lambda>x. x ++ internals table schema sid) rows \<and>
      sid = uuid_str (uuid4_int rnd) \<and> state_id (self m') = Some sid \<and>
      list_all plain pre \<and>
      source (self m') = source (self m) \<and> tables (self m') = tables (self m) \<and>
      batch_size (self m') = batch_size (self m) \<and>
      inckey (self m') = inckey (self m) \<and> incval (self m') = incval (self m) \<and>
      (if rows = []
       then (\<exists>cl. trace m' = trace m @ pre @ [Fetchall rows, Uuid4 sid, CursorClose] @ cl \<and>
                  (cl = [] \<or> cl = [Rollback, ConnClose]) \<and> (has_conn (self m) \<longrightarrow> cl = [Rollback, ConnClose])) \<and>
            index (self m') = index (self m) + 1 \<and> loaded (self m') = 0 \<and>
            conn (self m') = None \<and> cursor (self m') = None \<and> current_keys (self m') = None \<and>
            saved_state (self m') = \<lparr>last_index = None, last_value = None\<rparr>
       else (\<exists>cks lv.
              current_keys (self m') = Some cks \<and>
              lv = OrderedDict (map (\<lambda>key. (key, row_get (last batch) key))
                                  (map (\<lambda>x. dict_get x ''attname'') cks)) \<and>
              trace m' = trace m @ pre @
                [Fetchall rows, Uuid4 sid,
                 State (Some sid) \<lparr>last_index = Some (index (self m)), last_value = Some lv\<rparr>] \<and>
              saved_state (self m') = \<lparr>last_index = Some (index (self m)), last_value = Some lv\<rparr> \<and>
              index (self m') = index (self m) \<and> cursor (self m') \<noteq> None \<and>
              (has_conn (self m) \<longrightarrow> has_conn (self m'))))"
proof -
  from read_Inr [OF assms] obtain m0 where
    q: "quiet plain m m0" and r: "read_once E bs_arg m0 = (Inr (Some batch), m')"
    by blast
  from q obtain e0 where
    e0: "trace m0 = trace m @ e0" "list_all plain e0" and
    same: "source (self m0) = source (self m)" "batch_size (self m0) = batch_size (self m)"
      "tables (self m0) = tables (self m)" "index (self m0) = index (self m)"
      "inckey (self m0) = inckey (self m)" "incval (self m0) = incval (self m)" and
    hc: "has_conn (self m) \<longrightarrow> has_conn (self m0)"
    by (auto simp: quiet_def)
  from read_once_Some [OF r] obtain schema table rows sid rnd pre where
    f: "index (self m0) < length (tables (self m0))"
      "split1 (CHR ''.'') (t_value (tables (self m0) ! index (self m0))) = Some (schema, table)"
      "batch = map (\<lambda>x. x ++ internals table schema sid) rows"
      "sid = uuid_str (uuid4_int rnd)" "state_id (self m') = Some sid"
      "list_all plain pre"
      "source (self m') = source (self m0)" "tables (self m') = tables (self m0)"
      "batch_size (self m') = batch_size (self m0)"
      "inckey (self m') = inckey (self m0)" "incval (self m') = incval (self m0)" and
    br: "if rows = []
       then trace m' = trace m0 @ pre @ [Fetchall rows, Uuid4 sid, CursorClose] @
              (if cursor (self m0) \<noteq> None \<and> conn (self m0) = None then [] else [Rollback, ConnClose]) \<and>
            index (self m') = index (self m0) + 1 \<and> loaded (self m') = 0 \<and>
            conn (self m') = None \<and> cursor (self m') = None \<and> current_keys (self m') = None \<and>
            saved_state (self m') = \<lparr>last_index = None, last_value = None\<rparr>
       else (\<exists>cks lv.
              current_keys (self m') = Some cks \<and>
              lv = OrderedDict (map (\<lambda>key. (key, row_get (last batch) key))
                                  (map (\<lambda>x. dict_get x ''attname'') cks)) \<and>
              trace m' = trace m0 @ pre @
                [Fetchall rows, Uuid4 sid,
                 State (Some sid) \<lparr>last_index = Some (index (self m0)), last_value = Some lv\<rparr>] \<and>
              saved_state (self m') = \<lparr>last_index = Some (index (self m0)), last_value = Some lv\<rparr> \<and>
              index (self m') = index (self m0) \<and> cursor (self m') \<noteq> None \<and>
              (has_conn (self m0) \<longrightarrow> has_conn (self m')))"
    by blast
  have pp: "list_all plain (e0 @ pre)"
    using e0(2) f(6) by simp
  show ?thesis
  proof (cases "rows = []")
    case True
    let ?cl = "if cursor (self m0) \<noteq> None \<and> conn (self m0) = None then [] else [Rollback, ConnClose]"
    have cl: "(?cl = [] \<or> ?cl = [Rollback, ConnClose]) \<and> (has_conn (self m) \<longrightarrow> ?cl = [Rollback, ConnClose])"
      using hc by (auto simp: has_conn_def)
    have t: "trace m' = trace m @ (e0 @ pre) @ [Fetchall rows, Uuid4 sid, CursorClose] @ ?cl"
      using br True e0(1) by simp
    show ?thesis
      apply (rule exI [of _ schema], rule exI [of _ table], rule exI [of _ rows], rule exI [of _ sid])
      apply (rule exI [of _ rnd], rule exI [of _ "e0 @ pre"])
      using f same pp br True t cl by auto
  next
    case False
    with br obtain cks lv where
      g: "current_keys (self m') = Some cks"
        "lv = OrderedDict (map (\<lambda>key. (key, row_get (last batch) key))
                                  (map (\<lambda>x. dict_get x ''attname'') cks))"
        "trace m' = trace m0 @ pre @
                [Fetchall rows, Uuid4 sid,
                 State (Some sid) \<lparr>last_index = Some (index (self m0)), last_value = Some lv\<rparr>]"
        "saved_state (self m') = \<lparr>last_index = Some (index (self m0)), last_value = Some lv\<rparr>"
        "index (self m') = index (self m0)" "cursor (self m') \<noteq> None"
        "has_conn (self m0) \<longrightarrow> has_conn (self m')"
      by auto
    have t: "trace m' = trace m @ (e0 @ pre) @
                [Fetchall rows, Uuid4 sid,
                 State (Some sid) \<lparr>last_index = Some (index (self m)), last_value = Some lv\<rparr>]"
      using g(3) e0(1) same by simp
    show ?thesis
      apply (rule exI [of _ schema], rule exI [of _ table], rule exI [of _ rows], rule exI [of _ sid])
      apply (rule exI [of _ rnd], rule exI [of _ "e0 @ pre"])
      using f same pp False g t hc by auto
  qed
qed

section \<open>What each method returns, given what the environment answers\<close>

lemma bindE_ok: "f m = (Inr x, m1) \<Longrightarrow> bindE f g m = g x m1"
  by (simp add: bindE_def)

lemma bindE_fail: "f m = (Inl e, m1) \<Longrightarrow> bindE f g m = (Inl e, m1)"
  by (simp add: bindE_def)

lemma fetchall_ok:
  "cursor (self m) = Some c \<Longrightarrow> cursor_fetchall E c (world m) = (rows, w') \<Longrightarrow>
   fetchall E m = (Inr rows, m\<lparr>world := w', trace := trace m @ [Fetchall rows]\<rparr>)"
  by (simp add: fetchall_def)

lemma uuid4_ok:
  "os_urandom E (world m) = (rnd, w') \<Longrightarrow>
   uuid4 E m = (Inr (uuid_str (uuid4_int rnd)),
                m\<lparr>world := w', trace := trace m @ [Uuid4 (uuid_str (uuid4_int rnd))]\<rparr>)"
  by (simp add: uuid4_def Let_def)

lemma close_ok:
  "cursor (self m) = Some c \<Longrightarrow> conn (self m) = Some cn \<Longrightarrow>
   cursor_close E c (world m) = (None, w1) \<Longrightarrow> conn_rollback E cn w1 = (None, w2) \<Longrightarrow>
   conn_close E cn w2 = (None, w3) \<Longrightarrow>
   close E m = (Inr (), m\<lparr>self := (self m)\<lparr>loaded := 0, conn := None, cursor := None\<rparr>, world := w3,
                          trace := trace m @ [CursorClose, Rollback, ConnClose]\<rparr>)"
  by (simp add: close_def meth_defs)

lemma connect_ok:
  assumes "addr src = hp @ ''/'' @ db" "CHR ''/'' \<notin> set db"
    and "(CHR '':'' \<notin> set hp \<and> host = hp \<and> port = 5432) \<or>
         (\<exists>p. hp = host @ '':'' @ p \<and> CHR '':'' \<notin> set p \<and> py_int p = Some port)"
  shows "connect E src m =
     (case psycopg2_connect E host port (user src) (password src) db CONNECT_TIMEOUT (world m) of
        (Inr handles, w') \<Rightarrow>
          (Inr handles,
           m\<lparr>world := w', trace := trace m @ [Connect host port (user src) (password src) db CONNECT_TIMEOUT]\<rparr>)
      | (Inl e, w') \<Rightarrow>
          (Inl (case e of
                  OperationalError msg \<Rightarrow>
                    if sublist ''authentication failed'' msg
                    then PanoplyException (''Login failed for user: '' @ user src) False
                    else Psycopg2 e
                | _ \<Rightarrow> Psycopg2 e),
           m\<lparr>world := w', trace := trace m @ [Connect host port (user src) (password src) db CONNECT_TIMEOUT]\<rparr>))"
proof -
  have r: "rsplit1 (CHR ''/'') (addr src) = Some (hp, db)"
    using assms(1,2) by (simp add: rsplit1_Some_iff)
  have hp: "(if CHR '':'' \<in> set hp
                 then (case rsplit1 (CHR '':'') hp of
                         None \<Rightarrow> None
                       | Some (h, p) \<Rightarrow> map_option (\<lambda>n. (h, n)) (py_int p))
                 else Some (hp, 5432)) = Some (host, port)"
  proof -
    from assms(3) consider
      (plain) "CHR '':'' \<notin> set hp" "host = hp" "port = 5432"
      | (colon) p where "hp = host @ '':'' @ p" "CHR '':'' \<notin> set p" "py_int p = Some port"
      by blast
    then show ?thesis
    proof cases
      case plain
      then show ?thesis by simp
    next
      case colon
      then have "rsplit1 (CHR '':'') hp = Some (host, p)"
        by (simp add: rsplit1_Some_iff)
      with colon show ?thesis by simp
    qed
  qed
  obtain res w' where pc:
    "psycopg2_connect E host port (user src) (password src) db CONNECT_TIMEOUT (world m) = (res, w')"
    by (cases "psycopg2_connect E host port (user src) (password src) db CONNECT_TIMEOUT (world m)")
  show ?thesis
  proof (cases res)
    case (Inr hs)
    with r hp pc show ?thesis
      by (simp add: connect_def Let_def)
  next
    case (Inl e)
    with r hp pc show ?thesis
      by (cases e) (simp_all add: connect_def Let_def str_in_sublist)
  qed
qed

lemma get_table_metadata_ok:
  assumes "cursor (self m) = Some c" "cursor_execute E c (sql table) (world m) = (None, w1)"
    and "cursor_fetchall E c w1 = (rows, w2)"
  shows "get_table_metadata E sql table m =
     (Inr rows,
      m\<lparr>world := w2,
         trace := trace m @ [Log (sql table) (''Loaded: '' @ str_nat (loaded (self m))), Execute (sql table),
                             Log ''DONE'' (sql table), Fetchall rows]\<rparr>)"
proof -
  define m1 where "m1 = m\<lparr>world := w1,
              trace := trace m @ [Log (sql table) (''Loaded: '' @ str_nat (loaded (self m))), Execute (sql table),
                                  Log ''DONE'' (sql table)]\<rparr>"
  have e1: "execute E (sql table) m = (Inr (), m1)"
    unfolding m1_def by (rule execute_ok [OF assms(1,2)])
  have "cursor (self m1) = Some c" "cursor_fetchall E c (world m1) = (rows, w2)"
    using assms by (simp_all add: m1_def)
  from fetchall_ok [OF this] have e2:
    "fetchall E m1 = (Inr rows, m1\<lparr>world := w2, trace := trace m1 @ [Fetchall rows]\<rparr>)" .
  show ?thesis
    unfolding get_table_metadata_def bindE_ok [where f = "execute E (sql table)" and m = m, OF e1] e2
    by (simp add: m1_def)
qed

text \<open>\<open>read_fetch\<close> when rows come, when none come, and when the statement fails.\<close>

lemma read_fetch_rows:
  assumes "cursor (self m) = Some c"
    and "cursor_execute E c (''FETCH FORWARD '' @ str_int bs @ '' FROM cur'') (world m) = (None, w1)"
    and "cursor_fetchall E c w1 = (rows, w2)" and "rows \<noteq> []"
    and "os_urandom E w2 = (rnd, w3)"
    and "current_keys (self m) = Some cks"
  shows "read_fetch E bs schema table m =
    (Inr (Some (map (\<lambda>r. r ++ internals table schema (uuid_str (uuid4_int rnd))) rows)),
     m\<lparr>self := (self m)
           \<lparr>state_id := Some (uuid_str (uuid4_int rnd)),
            loaded := loaded (self m) + length rows,
            saved_state :=
              \<lparr>last_index = Some (index (self m)),
               last_value = Some (OrderedDict (map (\<lambda>key. (key, row_get (last rows ++ internals table schema (uuid_str (uuid4_int rnd))) key))
                                       (map (\<lambda>x. dict_get x ''attname'') cks)))\<rparr>\<rparr>,
        world := w3,
        trace := trace m @
          [Log (''FETCH FORWARD '' @ str_int bs @ '' FROM cur'') (''Loaded: '' @ str_nat (loaded (self m))),
           Execute (''FETCH FORWARD '' @ str_int bs @ '' FROM cur''),
           Log ''DONE'' (''FETCH FORWARD '' @ str_int bs @ '' FROM cur''),
           Fetchall rows, Uuid4 (uuid_str (uuid4_int rnd)),
           State (Some (uuid_str (uuid4_int rnd)))
             \<lparr>last_index = Some (index (self m)),
              last_value = Some (OrderedDict (map (\<lambda>key. (key, row_get (last rows ++ internals table schema (uuid_str (uuid4_int rnd))) key))
                                       (map (\<lambda>x. dict_get x ''attname'') cks)))\<rparr>]\<rparr>)"
proof -
  let ?q = "''FETCH FORWARD '' @ str_int bs @ '' FROM cur''"
  define m1 where "m1 = m\<lparr>world := w1,
              trace := trace m @ [Log ?q (''Loaded: '' @ str_nat (loaded (self m))), Execute ?q, Log ''DONE'' ?q]\<rparr>"
  have e1: "execute E ?q m = (Inr (), m1)"
    unfolding m1_def by (rule execute_ok [OF assms(1,2)])
  define m2 where "m2 = m1\<lparr>world := w2, trace := trace m1 @ [Fetchall rows]\<rparr>"
  have "cursor (self m1) = Some c" "cursor_fetchall E c (world m1) = (rows, w2)"
    using assms by (simp_all add: m1_def)
  from fetchall_ok [OF this] have e2: "fetchall E m1 = (Inr rows, m2)"
    by (simp add: m2_def)
  define m3 where "m3 = m2\<lparr>world := w3, trace := trace m2 @ [Uuid4 (uuid_str (uuid4_int rnd))]\<rparr>"
  have "os_urandom E (world m2) = (rnd, w3)"
    using assms by (simp add: m2_def)
  from uuid4_ok [OF this] have e3: "uuid4 E m2 = (Inr (uuid_str (uuid4_int rnd)), m3)"
    by (simp add: m3_def)
  have s3: "self m3 = self m"
    by (simp add: m3_def m2_def m1_def)
  have "read_fetch E bs schema table m =
    (Inr (Some (map (\<lambda>r. r ++ internals table schema (uuid_str (uuid4_int rnd))) rows)),
     m3\<lparr>self := (self m)
           \<lparr>state_id := Some (uuid_str (uuid4_int rnd)),
            loaded := loaded (self m) + length rows,
            saved_state :=
              \<lparr>last_index = Some (index (self m)),
               last_value = Some (OrderedDict (map (\<lambda>key. (key, row_get (last rows ++ internals table schema (uuid_str (uuid4_int rnd))) key))
                                       (map (\<lambda>x. dict_get x ''attname'') cks)))\<rparr>\<rparr>,
        trace := trace m3 @
          [State (Some (uuid_str (uuid4_int rnd)))
             \<lparr>last_index = Some (index (self m)),
              last_value = Some (OrderedDict (map (\<lambda>key. (key, row_get (last rows ++ internals table schema (uuid_str (uuid4_int rnd))) key))
                                       (map (\<lambda>x. dict_get x ''attname'') cks)))\<rparr>]\<rparr>)"
    unfolding read_fetch_def bindE_ok [where f = "execute E ?q" and m = m, OF e1] bindE_ok [where f = "fetchall E" and m = m1, OF e2] bindE_ok [where f = "uuid4 E" and m = m2, OF e3]
    using assms(4,6)
    by (simp add: bindE_def modify_self_def returnE_def gets_def report_state_def emit_def Let_def last_map s3)
  then show ?thesis
    by (simp add: m3_def m2_def m1_def)
qed

lemma read_fetch_empty:
  assumes "cursor (self m) = Some c" and "conn (self m) = Some cn"
    and "cursor_execute E c (''FETCH FORWARD '' @ str_int bs @ '' FROM cur'') (world m) = (None, w1)"
    and "cursor_fetchall E c w1 = ([], w2)"
    and "os_urandom E w2 = (rnd, w3)"
    and "cursor_close E c w3 = (None, w4)" and "conn_rollback E cn w4 = (None, w5)"
    and "conn_close E cn w5 = (None, w6)"
  shows "read_fetch E bs schema table m =
    (Inr (Some []),
     m\<lparr>self := (self m)
           \<lparr>state_id := Some (uuid_str (uuid4_int rnd)), index := index (self m) + 1, loaded := 0,
            conn := None, cursor := None, current_keys := None,
            saved_state := \<lparr>last_index = None, last_value = None\<rparr>\<rparr>,
        world := w6,
        trace := trace m @
          [Log (''FETCH FORWARD '' @ str_int bs @ '' FROM cur'') (''Loaded: '' @ str_nat (loaded (self m))),
           Execute (''FETCH FORWARD '' @ str_int bs @ '' FROM cur''),
           Log ''DONE'' (''FETCH FORWARD '' @ str_int bs @ '' FROM cur''),
           Fetchall [], Uuid4 (uuid_str (uuid4_int rnd)), CursorClose, Rollback, ConnClose]\<rparr>)"
proof -
  let ?q = "''FETCH FORWARD '' @ str_int bs @ '' FROM cur''"
  define m1 where "m1 = m\<lparr>world := w1,
              trace := trace m @ [Log ?q (''Loaded: '' @ str_nat (loaded (self m))), Execute ?q, Log ''DONE'' ?q]\<rparr>"
  have e1: "execute E ?q m = (Inr (), m1)"
    unfolding m1_def by (rule execute_ok [OF assms(1,3)])
  define m2 where "m2 = m1\<lparr>world := w2, trace := trace m1 @ [Fetchall []]\<rparr>"
  have "cursor (self m1) = Some c" "cursor_fetchall E c (world m1) = ([], w2)"
    using assms by (simp_all add: m1_def)
  from fetchall_ok [OF this] have e2: "fetchall E m1 = (Inr [], m2)"
    by (simp add: m2_def)
  define m3 where "m3 = m2\<lparr>world := w3, trace := trace m2 @ [Uuid4 (uuid_str (uuid4_int rnd))]\<rparr>"
  have "os_urandom E (world m2) = (rnd, w3)"
    using assms by (simp add: m2_def)
  from uuid4_ok [OF this] have e3: "uuid4 E m2 = (Inr (uuid_str (uuid4_int rnd)), m3)"
    by (simp add: m3_def)
  define m4 where "m4 = m3\<lparr>self := (self m3)\<lparr>state_id := Some (uuid_str (uuid4_int rnd))\<rparr>\<rparr>"
  have "cursor (self m4) = Some c" "conn (self m4) = Some cn" "cursor_close E c (world m4) = (None, w4)"
    using assms by (simp_all add: m4_def m3_def m2_def m1_def)
  from close_ok [OF this assms(7,8)] have e4:
    "close E m4 = (Inr (), m4\<lparr>self := (self m4)\<lparr>loaded := 0, conn := None, cursor := None\<rparr>, world := w6,
                          trace := trace m4 @ [CursorClose, Rollback, ConnClose]\<rparr>)" .
  have "read_fetch E bs schema table m =
    (Inr (Some []),
     m4\<lparr>self := (self m4)\<lparr>index := index (self m4) + 1, loaded := 0, conn := None, cursor := None,
                            current_keys := None,
                            saved_state := \<lparr>last_index = None, last_value = None\<rparr>\<rparr>,
         world := w6, trace := trace m4 @ [CursorClose, Rollback, ConnClose]\<rparr>)"
    unfolding read_fetch_def bindE_ok [where f = "execute E ?q" and m = m, OF e1] bindE_ok [where f = "fetchall E" and m = m1, OF e2] bindE_ok [where f = "uuid4 E" and m = m2, OF e3]
    by (simp add: bindE_def modify_self_def returnE_def m4_def [symmetric] e4)
  then show ?thesis
    by (simp add: m4_def m3_def m2_def m1_def)
qed

lemma read_fetch_raises:
  assumes "cursor (self m) = Some c"
    and "cursor_execute E c (''FETCH FORWARD '' @ str_int bs @ '' FROM cur'') (world m) = (Some d, w1)"
    and "isinstance_DatabaseError (Psycopg2 d)"
  shows "read_fetch E bs schema table m =
    (Inl (Psycopg2 d),
     m\<lparr>self := (self m)\<lparr>loaded := 0, conn := None, cursor := None\<rparr>, world := w1,
        trace := trace m @
          [Log (''FETCH FORWARD '' @ str_int bs @ '' FROM cur'') (''Loaded: '' @ str_nat (loaded (self m))),
           Execute (''FETCH FORWARD '' @ str_int bs @ '' FROM cur''),
           Print (''Raise error '' @ message d)]\<rparr>)"
proof -
  from execute_error [OF assms(1,2)] assms(3) have
    "execute E (''FETCH FORWARD '' @ str_int bs @ '' FROM cur'') m =
      (Inl (Psycopg2 d),
       m\<lparr>self := (self m)\<lparr>loaded := 0, conn := None, cursor := None\<rparr>, world := w1,
        trace := trace m @
          [Log (''FETCH FORWARD '' @ str_int bs @ '' FROM cur'') (''Loaded: '' @ str_nat (loaded (self m))),
           Execute (''FETCH FORWARD '' @ str_int bs @ '' FROM cur''),
           Print (''Raise error '' @ message d)]\<rparr>)"
    by simp
  then show ?thesis
    unfolding read_fetch_def by (rule bindE_fail [where f = "execute E (''FETCH FORWARD '' @ str_int bs @ '' FROM cur'')"])
qed

section \<open>Opening the connection\<close>

text \<open>
  C9. \<open>connect\<close> reads the address as \<open>host[:port]/database\<close>: the database name is what
  follows the last slash, the port what follows the last colon of the part before it,
  and the port is 5432 when that part has no colon. The driver is called once with these
  values. What it returns is handed back; an \<open>OperationalError\<close> whose message contains
  \<open>authentication failed\<close> becomes the exception \<open>Login failed for user: ...\<close> flagged as
  not retryable; every other failure of the driver is raised as it came.
\<close>

theorem C9_connect:
  assumes "addr src = hp @ ''/'' @ db" and "CHR ''/'' \<notin> set db"
    and "(CHR '':'' \<notin> set hp \<and> host = hp \<and> port = 5432) \<or>
         (\<exists>p. hp = host @ '':'' @ p \<and> CHR '':'' \<notin> set p \<and> py_int p = Some port)"
    and "psycopg2_connect E host port (user src) (password src) db CONNECT_TIMEOUT (world m) = (r, w')"
  shows "snd (connect E src m) =
           m\<lparr>world := w', trace := trace m @ [Connect host port (user src) (password src) db CONNECT_TIMEOUT]\<rparr> \<and>
         fst (connect E src m) =
           (case r of
              Inr handles \<Rightarrow> Inr handles
            | Inl e \<Rightarrow>
                Inl (if \<exists>msg. e = OperationalError msg \<and> sublist ''authentication failed'' msg
                     then PanoplyException (''Login failed for user: '' @ user src) False
                     else Psycopg2 e))"
proof (cases r)
  case (Inl e)
  then show ?thesis
    unfolding connect_ok [OF assms(1,2,3)] assms(4)
    by (cases e) simp_all
next
  case (Inr hs)
  then show ?thesis
    unfolding connect_ok [OF assms(1,2,3)] assms(4)
    by simp
qed

theorem C9_connect_witness:
  "fst (connect mock_env (test_source ''test.database.name:5439/foobar'' []) (start (test_source ''test.database.name:5439/foobar'' []) (mock_world [] [] []))) = Inr (1, 1)
   \<and> trace (snd (connect mock_env (test_source ''test.database.name:5439/foobar'' []) (start (test_source ''test.database.name:5439/foobar'' []) (mock_world [] [] []))))
       = [Connect ''test.database.name'' 5439 ''test'' ''testpassword'' ''foobar'' 15]
   \<and> trace (snd (connect mock_env (test_source ''localhost/db'' []) (start (test_source ''localhost/db'' []) (mock_world [] [] []))))
       = [Connect ''localhost'' 5432 ''test'' ''testpassword'' ''db'' 15]
   \<and> fst (connect mock_env (test_source ''localhost/db'' [])
            (start (test_source ''localhost/db'' [])
               ((mock_world [] [] [])\<lparr>connect_effect := Some (OperationalError ''FATAL: password authentication failed for user test'')\<rparr>)))
       = Inl (PanoplyException ''Login failed for user: test'' False)
   \<and> fst (connect mock_env (test_source ''localhost/db'' [])
            (start (test_source ''localhost/db'' [])
               ((mock_world [] [] [])\<lparr>connect_effect := Some (OperationalError ''could not connect to server'')\<rparr>)))
       = Inl (Psycopg2 (OperationalError ''could not connect to server''))"
proof -
  let ?s1 = "test_source ''test.database.name:5439/foobar'' []"
  let ?s2 = "test_source ''localhost/db'' []"
  let ?w = "mock_world [] [] []"
  have p: "py_int ''5439'' = Some 5439"
    by (simp add: py_int_def strip_def is_blank_def digit_val_def)
  have a: "sublist ''authentication failed'' ''FATAL: password authentication failed for user test''"
    unfolding str_in_sublist [symmetric] by simp
  have b: "\<not> sublist ''authentication failed'' ''could not connect to server''"
    unfolding str_in_sublist [symmetric] by simp
  have t1: "snd (connect mock_env ?s1 (start ?s1 ?w)) = (start ?s1 ?w)\<lparr>world := ?w,
              trace := trace (start ?s1 ?w) @ [Connect ''test.database.name'' 5439 (user ?s1) (password ?s1) ''foobar'' CONNECT_TIMEOUT]\<rparr>
            \<and> fst (connect mock_env ?s1 (start ?s1 ?w)) = (case (Inr (1, 1) :: dberr + nat \<times> nat) of Inr handles \<Rightarrow> Inr handles
            | Inl e \<Rightarrow>
                Inl (if \<exists>msg. e = OperationalError msg \<and> sublist ''authentication failed'' msg
                     then PanoplyException (''Login failed for user: '' @ user ?s1) False
                     else Psycopg2 e))"
    by (rule C9_connect [where hp = "''test.database.name:5439''"])
       (simp_all add: test_source_def p mock_env_def mock_world_def start_def)
  have t2: "snd (connect mock_env ?s2 (start ?s2 ?w)) = (start ?s2 ?w)\<lparr>world := ?w,
              trace := trace (start ?s2 ?w) @ [Connect ''localhost'' 5432 (user ?s2) (password ?s2) ''db'' CONNECT_TIMEOUT]\<rparr>"
    by (rule C9_connect [where hp = "''localhost''" and r = "Inr (1, 1)", THEN conjunct1])
       (simp_all add: test_source_def mock_env_def mock_world_def start_def)
  let ?m3 = "start ?s2 (?w\<lparr>connect_effect := Some (OperationalError ''FATAL: password authentication failed for user test'')\<rparr>)"
  have t3: "fst (connect mock_env ?s2 ?m3) =
      (case (Inl (OperationalError ''FATAL: password authentication failed for user test'') :: dberr + nat \<times> nat) of
              Inr handles \<Rightarrow> Inr handles
            | Inl e \<Rightarrow>
                Inl (if \<exists>msg. e = OperationalError msg \<and> sublist ''authentication failed'' msg
                     then PanoplyException (''Login failed for user: '' @ user ?s2) False
                     else Psycopg2 e))"
    by (rule C9_connect [where hp = "''localhost''" and host = "''localhost''" and port = 5432 and db = "''db''", THEN conjunct2])
       (simp_all add: test_source_def mock_env_def mock_world_def start_def)
  let ?m4 = "start ?s2 (?w\<lparr>connect_effect := Some (OperationalError ''could not connect to server'')\<rparr>)"
  have t4: "fst (connect mock_env ?s2 ?m4) =
      (case (Inl (OperationalError ''could not connect to server'') :: dberr + nat \<times> nat) of
              Inr handles \<Rightarrow> Inr handles
            | Inl e \<Rightarrow>
                Inl (if \<exists>msg. e = OperationalError msg \<and> sublist ''authentication failed'' msg
                     then PanoplyException (''Login failed for user: '' @ user ?s2) False
                     else Psycopg2 e))"
    by (rule C9_connect [where hp = "''localhost''" and host = "''localhost''" and port = 5432 and db = "''db''", THEN conjunct2])
       (simp_all add: test_source_def mock_env_def mock_world_def start_def)
  show ?thesis
    using t1 t2 t3 t4 a b
    by (simp add: test_source_def start_def CONNECT_TIMEOUT_def)
qed

section \<open>Opening the cursor, forwards\<close>

text \<open>
  \<open>read_open_cursor\<close> when every statement succeeds and no incremental column is
  configured, in the three ways the ordering key can be resolved: read from the index
  catalogue, kept from an earlier attempt on the same table, and empty because neither
  the index catalogue nor the column catalogue returned a row.
\<close>

lemma connect_self:
  "connect E src m = (Inr hs, m0) \<Longrightarrow> self m0 = self m"
  using connect_Inr [of E src m hs m0] by auto

lemma read_open_cursor_catalog_keys:
  assumes "connect E (source (self m)) m = (Inr (cn, c), m0)"
    and "no_keys (current_keys (self m))" and "inckey (self m) = []"
    and "cursor_execute E c (SQL_GET_KEYS table) (world m0) = (None, w1)"
    and "cursor_fetchall E c w1 = (krows, w2)" and "krows \<noteq> []"
    and "get_query schema table [] (incval (self m)) (key_strategy E krows) PNone
           (last_value (saved_state (self m))) = Inr q"
    and "cursor_execute E c (''DECLARE cur CURSOR FOR '' @ q) w2 = (None, w3)"
  shows "read_open_cursor E schema table m =
    (Inr (),
     m0\<lparr>self := (self m)\<lparr>conn := Some cn, cursor := Some c, current_keys := Some (key_strategy E krows)\<rparr>,
         world := w3,
         trace := trace m0 @
           [Log (SQL_GET_KEYS table) (''Loaded: '' @ str_nat (loaded (self m))),
            Execute (SQL_GET_KEYS table), Log ''DONE'' (SQL_GET_KEYS table), Fetchall krows,
            Log (''DECLARE cur CURSOR FOR '' @ q) (''Loaded: '' @ str_nat (loaded (self m))),
            Execute (''DECLARE cur CURSOR FOR '' @ q),
            Log ''DONE'' (''DECLARE cur CURSOR FOR '' @ q)]\<rparr>)"
  using assms connect_self [OF assms(1)]
  by (simp add: read_open_cursor_def get_table_metadata_def get_max_value_def execute_def fetchall_def
      meth_defs no_keys_def)

lemma read_open_cursor_held_keys:
  assumes "connect E (source (self m)) m = (Inr (cn, c), m0)"
    and "current_keys (self m) = Some ks" and "ks \<noteq> []" and "inckey (self m) = []"
    and "get_query schema table [] (incval (self m)) (key_strategy E ks) PNone
           (last_value (saved_state (self m))) = Inr q"
    and "cursor_execute E c (''DECLARE cur CURSOR FOR '' @ q) (world m0) = (None, w3)"
  shows "read_open_cursor E schema table m =
    (Inr (),
     m0\<lparr>self := (self m)\<lparr>conn := Some cn, cursor := Some c, current_keys := Some (key_strategy E ks)\<rparr>,
         world := w3,
         trace := trace m0 @
           [Log (''DECLARE cur CURSOR FOR '' @ q) (''Loaded: '' @ str_nat (loaded (self m))),
            Execute (''DECLARE cur CURSOR FOR '' @ q),
            Log ''DONE'' (''DECLARE cur CURSOR FOR '' @ q)]\<rparr>)"
  using assms connect_self [OF assms(1)]
  by (simp add: read_open_cursor_def get_table_metadata_def get_max_value_def execute_def fetchall_def
      meth_defs no_keys_def)

lemma read_open_cursor_no_key:
  assumes "connect E (source (self m)) m = (Inr (cn, c), m0)"
    and "no_keys (current_keys (self m))" and "inckey (self m) = []"
    and "cursor_execute E c (SQL_GET_KEYS table) (world m0) = (None, w1)"
    and "cursor_fetchall E c w1 = ([], w2)"
    and "cursor_execute E c (SQL_GET_COLUMNS table) w2 = (None, w3)"
    and "cursor_fetchall E c w3 = ([], w4)"
    and "get_query schema table [] (incval (self m)) (key_strategy E []) PNone
           (last_value (saved_state (self m))) = Inr q"
    and "cursor_execute E c (''DECLARE cur CURSOR FOR '' @ q) w4 = (None, w5)"
  shows "read_open_cursor E schema table m =
    (Inr (),
     m0\<lparr>self := (self m)\<lparr>conn := Some cn, cursor := Some c, current_keys := Some (key_strategy E [])\<rparr>,
         world := w5,
         trace := trace m0 @
           [Log (SQL_GET_KEYS table) (''Loaded: '' @ str_nat (loaded (self m))),
            Execute (SQL_GET_KEYS table), Log ''DONE'' (SQL_GET_KEYS table), Fetchall [],
            Log (SQL_GET_COLUMNS table) (''Loaded: '' @ str_nat (loaded (self m))),
            Execute (SQL_GET_COLUMNS table), Log ''DONE'' (SQL_GET_COLUMNS table), Fetchall [],
            Log (''DECLARE cur CURSOR FOR '' @ q) (''Loaded: '' @ str_nat (loaded (self m))),
            Execute (''DECLARE cur CURSOR FOR '' @ q),
            Log ''DONE'' (''DECLARE cur CURSOR FOR '' @ q)]\<rparr>)"
  using assms connect_self [OF assms(1)]
  by (simp add: read_open_cursor_def get_table_metadata_def get_max_value_def execute_def fetchall_def
      meth_defs no_keys_def)

text \<open>One attempt of \<open>read\<close>, and \<open>read\<close> itself, in terms of their parts.\<close>

lemma read_once_fetch:
  assumes "index (self m) < length (tables (self m))"
    and "split1 (CHR ''.'') (t_value (tables (self m) ! index (self m))) = Some (schema, table)"
    and "cursor (self m) = Some c"
  shows "read_once E None m =
    read_fetch E (batch_size (self m)) schema table
      (m\<lparr>trace := trace m @
           [Progress (index (self m) + 1) (length (tables (self m)))
              (''Reading table '' @ str_nat (index (self m) + 1) @ '' ('' @ table @ '') out of '' @
               str_nat (length (tables (self m))))]\<rparr>)"
  using assms by (simp add: read_once_def meth_defs)

lemma read_once_open:
  assumes "index (self m) < length (tables (self m))"
    and "split1 (CHR ''.'') (t_value (tables (self m) ! index (self m))) = Some (schema, table)"
    and "cursor (self m) = None"
    and "read_open_cursor E schema table
      (m\<lparr>trace := trace m @
           [Progress (index (self m) + 1) (length (tables (self m)))
              (''Reading table '' @ str_nat (index (self m) + 1) @ '' ('' @ table @ '') out of '' @
               str_nat (length (tables (self m))))]\<rparr>) = (Inr (), m1)"
  shows "read_once E None m = read_fetch E (batch_size (self m)) schema table m1"
  using assms by (simp add: read_once_def meth_defs)

lemma read_first_attempt:
  "read_once E bs_arg m = (Inr x, m') \<Longrightarrow> read E bs_arg m = (Inr x, m')"
  by (simp add: read_def MAX_RETRIES_def eval_nat_numeral)

lemma read_second_attempt:
  assumes "read_once E bs_arg m = (Inl e, m1)" and "isinstance_DatabaseError e"
    and "read_once E bs_arg (m1\<lparr>trace := trace m1 @ [Retrying 1]\<rparr>) = (Inr x, m')"
  shows "read E bs_arg m = (Inr x, m')"
  using assms by (simp add: read_def MAX_RETRIES_def eval_nat_numeral)

lemma read_not_retried:
  assumes "read_once E bs_arg m = (Inl e, m1)" and "\<not> isinstance_DatabaseError e"
  shows "read E bs_arg m = (Inl e, m1)"
  using assms by (simp add: read_def MAX_RETRIES_def eval_nat_numeral)

end
